theory Spec2Isabelle
  imports Complex_Main "HOL-Library.AList" "HOL-Library.Product_Lexorder"
begin

section \<open>Python values used by the race pipeline\<close>

text \<open>
  Strings are lists of code points; the model covers the code points 0..255, which is
  what \<^typ>\<open>char\<close> holds. Python's unbounded integers are \<^typ>\<open>int\<close>. A Python float
  is idealised: a finite float is an exact real number, and the three special values that
  \<^verbatim>\<open>float()\<close> can produce from text are separate constructors. Rounding to binary64
  and the finite range of binary64 are not part of the model, nor is the interpreter's
  cap on the number of digits that \<^verbatim>\<open>int()\<close> reads.
\<close>

datatype pyfloat = Fin real | PInf | NInf | NaN

datatype exn = ValueError | IndexError | IntegrityError | RequestException

fun int_add_float :: "int \<Rightarrow> pyfloat \<Rightarrow> pyfloat" where
  "int_add_float k (Fin q) = Fin (of_int k + q)"
| "int_add_float k PInf = PInf"
| "int_add_float k NInf = NInf"
| "int_add_float k NaN = NaN"

text \<open>\<^verbatim>\<open>x >= 0\<close> on a float: false for NaN.\<close>

fun float_nonneg :: "pyfloat \<Rightarrow> bool" where
  "float_nonneg (Fin q) = (0 \<le> q)"
| "float_nonneg PInf = True"
| "float_nonneg NInf = False"
| "float_nonneg NaN = False"

subsection \<open>Characters and strings\<close>

text \<open>\<^verbatim>\<open>str.isspace\<close> on one code point below 256: the characters \<^verbatim>\<open>str.strip()\<close> removes.\<close>

definition py_isspace :: "char \<Rightarrow> bool" where
  "py_isspace c =
     (let n = (of_char c :: nat)
      in (9 \<le> n \<and> n \<le> 13) \<or> (28 \<le> n \<and> n \<le> 32) \<or> n = 133 \<or> n = 160)"

text \<open>
  The whitespace that \<^verbatim>\<open>int()\<close> and \<^verbatim>\<open>float()\<close> skip around a numeral: the ASCII
  blanks, and the two non-ASCII blanks that the interpreter first rewrites to a space.
  The separators 28..31 are not skipped by the numeric parsers.
\<close>

definition num_isspace :: "char \<Rightarrow> bool" where
  "num_isspace c =
     (let n = (of_char c :: nat)
      in (9 \<le> n \<and> n \<le> 13) \<or> n = 32 \<or> n = 133 \<or> n = 160)"

definition is_digit :: "char \<Rightarrow> bool" where
  "is_digit c = (let n = (of_char c :: nat) in 48 \<le> n \<and> n \<le> 57)"

text \<open>\<^verbatim>\<open>str.isdigit\<close> on one code point below 256: also the superscripts 2, 3 and 1.\<close>

definition py_isdigit_char :: "char \<Rightarrow> bool" where
  "py_isdigit_char c =
     (let n = (of_char c :: nat) in (48 \<le> n \<and> n \<le> 57) \<or> n = 178 \<or> n = 179 \<or> n = 185)"

definition py_isdigit :: "string \<Rightarrow> bool" where
  "py_isdigit s = (s \<noteq> [] \<and> list_all py_isdigit_char s)"

definition strip_with :: "(char \<Rightarrow> bool) \<Rightarrow> string \<Rightarrow> string" where
  "strip_with sp s = rev (dropWhile sp (rev (dropWhile sp s)))"

definition py_strip :: "string \<Rightarrow> string" where
  "py_strip s = strip_with py_isspace s"

text \<open>\<^verbatim>\<open>s.split(sep)\<close> for a one-character separator: always at least one piece.\<close>

fun py_split :: "char \<Rightarrow> string \<Rightarrow> string list" where
  "py_split sep [] = [[]]"
| "py_split sep (c # cs) =
     (if c = sep then [] # py_split sep cs
      else (case py_split sep cs of
              [] \<Rightarrow> [[c]]
            | p # ps \<Rightarrow> (c # p) # ps))"

subsection \<open>The numeric parsers \<^verbatim>\<open>int()\<close> and \<^verbatim>\<open>float()\<close> on text\<close>

definition digit_val :: "char \<Rightarrow> nat" where
  "digit_val c = of_char c - 48"

definition digits_to_nat :: "string \<Rightarrow> nat" where
  "digits_to_nat ds = foldl (\<lambda>a c. 10 * a + digit_val c) 0 ds"

text \<open>
  Underscores in a numeral: one may stand between two digits and nowhere else. The
  function walks the text with the previous character, drops the accepted underscores
  and fails on a misplaced one.
\<close>

fun del_underscores :: "char \<Rightarrow> string \<Rightarrow> string option" where
  "del_underscores prev [] = (if prev = CHR ''_'' then None else Some [])"
| "del_underscores prev (c # cs) =
     (if c = CHR ''_'' then
        (if is_digit prev then del_underscores c cs else None)
      else if prev = CHR ''_'' \<and> \<not> is_digit c then None
      else map_option ((#) c) (del_underscores c cs))"

definition take_sign :: "string \<Rightarrow> bool \<times> string" where
  "take_sign s =
     (case s of
        [] \<Rightarrow> (False, [])
      | c # cs \<Rightarrow>
          if c = CHR ''-'' then (True, cs)
          else if c = CHR ''+'' then (False, cs)
          else (False, s))"

text \<open>
  \<^verbatim>\<open>int(s)\<close> in base 10: blanks, an optional sign, decimal digits with single
  underscores between them, blanks. Anything else raises ValueError.
\<close>

definition py_int :: "string \<Rightarrow> exn + int" where
  "py_int s =
     (case del_underscores (CHR 0x00) s of
        None \<Rightarrow> Inl ValueError
      | Some t \<Rightarrow>
          (let (neg, ds) = take_sign (strip_with num_isspace t)
           in if ds \<noteq> [] \<and> list_all is_digit ds
              then Inr (if neg then - int (digits_to_nat ds) else int (digits_to_nat ds))
              else Inl ValueError))"

definition lower :: "char \<Rightarrow> char" where
  "lower c =
     (let n = (of_char c :: nat) in if 65 \<le> n \<and> n \<le> 90 then char_of (n + 32) else c)"

text \<open>
  The unsigned decimal part of a float literal: digits, an optional point, digits (at
  least one digit in all), then an optional exponent with its own sign and at least one
  digit. The value is the exact decimal.
\<close>

definition parse_exponent :: "string \<Rightarrow> int option" where
  "parse_exponent s =
     (let (neg, ds) = take_sign s
      in if ds \<noteq> [] \<and> list_all is_digit ds
         then Some (if neg then - int (digits_to_nat ds) else int (digits_to_nat ds))
         else None)"

definition scale10 :: "real \<Rightarrow> int \<Rightarrow> real" where
  "scale10 q e = (if 0 \<le> e then q * 10 ^ nat e else q / 10 ^ nat (- e))"

definition parse_decimal :: "string \<Rightarrow> real option" where
  "parse_decimal s =
     (let ip = takeWhile is_digit s;
          r1 = dropWhile is_digit s;
          has_point = (r1 \<noteq> [] \<and> hd r1 = CHR ''.'');
          fp = (if has_point then takeWhile is_digit (tl r1) else []);
          r2 = (if has_point then dropWhile is_digit (tl r1) else r1);
          mant = of_nat (digits_to_nat (ip @ fp)) / 10 ^ length fp
      in if ip = [] \<and> fp = [] then None
         else if r2 = [] then Some mant
         else if hd r2 = CHR ''e'' \<or> hd r2 = CHR ''E'' then
           map_option (scale10 mant) (parse_exponent (tl r2))
         else None)"

text \<open>
  \<^verbatim>\<open>float(s)\<close>: blanks, an optional sign, then \<^verbatim>\<open>inf\<close>, \<^verbatim>\<open>infinity\<close> or \<^verbatim>\<open>nan\<close> in any
  letter case, or a decimal literal; blanks. Anything else raises ValueError.
\<close>

definition py_float :: "string \<Rightarrow> exn + pyfloat" where
  "py_float s =
     (case del_underscores (CHR 0x00) s of
        None \<Rightarrow> Inl ValueError
      | Some t \<Rightarrow>
          (let (neg, body) = take_sign (strip_with num_isspace t);
               low = map lower body
           in if low = ''inf'' \<or> low = ''infinity'' then Inr (if neg then NInf else PInf)
              else if low = ''nan'' then Inr NaN
              else (case parse_decimal body of
                      None \<Rightarrow> Inl ValueError
                    | Some q \<Rightarrow> Inr (Fin (if neg then - q else q)))))"

section \<open>The scraper: \<^verbatim>\<open>DiabloScraper\<close>\<close>

subsection \<open>\<^verbatim>\<open>parse_chip_time\<close>\<close>

text \<open>
  The body of the \<^verbatim>\<open>try\<close> block. A text with one piece, or with four or more, falls
  through both branches: the function then ends without a \<^verbatim>\<open>return\<close>, which is
  \<^verbatim>\<open>None\<close>.
\<close>

definition chip_time_try :: "string \<Rightarrow> exn + pyfloat option" where
  "chip_time_try time_str =
     (let parts = py_split CHR '':'' time_str
      in if length parts = 3 then
           (case py_int (parts ! 0) of
              Inl e \<Rightarrow> Inl e
            | Inr hours \<Rightarrow>
                (case py_int (parts ! 1) of
                   Inl e \<Rightarrow> Inl e
                 | Inr minutes \<Rightarrow>
                     (case py_float (parts ! 2) of
                        Inl e \<Rightarrow> Inl e
                      | Inr seconds \<Rightarrow>
                          Inr (Some (int_add_float (hours * 3600 + minutes * 60) seconds)))))
         else if length parts = 2 then
           (case py_int (parts ! 0) of
              Inl e \<Rightarrow> Inl e
            | Inr minutes \<Rightarrow>
                (case py_float (parts ! 1) of
                   Inl e \<Rightarrow> Inl e
                 | Inr seconds \<Rightarrow> Inr (Some (int_add_float (minutes * 60) seconds))))
         else Inr None)"

text \<open>
  The whole function, with the result an exception or a return value. The handler
  \<^verbatim>\<open>except Exception\<close> turns every exception of the body into the return value
  \<^verbatim>\<open>None\<close>.
\<close>

definition parse_chip_time :: "string \<Rightarrow> exn + pyfloat option" where
  "parse_chip_time time_str =
     (if time_str = [] \<or> py_strip time_str = [] then Inr None
      else (case chip_time_try (py_strip time_str) of
              Inl e \<Rightarrow> Inr None
            | Inr r \<Rightarrow> Inr r))"

subsection \<open>\<^verbatim>\<open>parse_results_table\<close>\<close>

text \<open>A calendar date (\<^verbatim>\<open>datetime.date\<close>): year, month, day.\<close>

datatype date = Date int nat nat

text \<open>
  One result row, the dictionary that \<^verbatim>\<open>parse_results_table\<close> builds. A key that
  \<^verbatim>\<open>.get\<close> does not find, or whose value is \<^verbatim>\<open>None\<close>, is \<open>None\<close>.
\<close>

record race_result =
  year :: "int option"
  race_date :: "date option"
  place :: "int option"
  name :: string
  team :: string
  city_state :: string
  gender :: string
  gender_place :: string
  age :: "int option"
  age_place :: string
  chip_time_str :: string
  chip_time_seconds :: "pyfloat option"
  pace :: string
  start_time :: string

text \<open>
  A fetched page, as far as the scraper looks at it: the page text, the rows of the
  table with id \<^verbatim>\<open>resultsTable\<close> (each row the texts of its \<^verbatim>\<open>td\<close> cells; \<open>None\<close>
  when the page has no such table), the texts of the anchors, and the \<^verbatim>\<open>name\<close> and
  \<^verbatim>\<open>value\<close> attributes of the \<^verbatim>\<open>input\<close> elements.
\<close>

record page =
  page_text :: string
  results_table :: "string list list option"
  anchors :: "string list"
  inputs :: "(string option \<times> string option) list"

text \<open>\<^verbatim>\<open>int(s) if s.isdigit() else None\<close>.\<close>

definition int_if_digit :: "string \<Rightarrow> exn + int option" where
  "int_if_digit s =
     (if py_isdigit s then
        (case py_int s of Inl e \<Rightarrow> Inl e | Inr k \<Rightarrow> Inr (Some k))
      else Inr None)"

text \<open>
  The \<^verbatim>\<open>try\<close> block for one table row of at least 13 cells. The chip time is parsed
  first, then the dictionary is built, \<^verbatim>\<open>place\<close> before \<^verbatim>\<open>age\<close>.
\<close>

definition parse_row :: "int \<Rightarrow> string list \<Rightarrow> exn + race_result" where
  "parse_row yr cells =
     (let place_s = py_strip (cells ! 0);
          age_s = py_strip (cells ! 6);
          chip_time_s = py_strip (cells ! 9)
      in case parse_chip_time chip_time_s of
           Inl e \<Rightarrow> Inl e
         | Inr secs \<Rightarrow>
             (case int_if_digit place_s of
                Inl e \<Rightarrow> Inl e
              | Inr pl \<Rightarrow>
                  (case int_if_digit age_s of
                     Inl e \<Rightarrow> Inl e
                   | Inr ag \<Rightarrow>
                       Inr \<lparr> year = Some yr, race_date = None, place = pl,
                             name = py_strip (cells ! 1), team = py_strip (cells ! 2),
                             city_state = py_strip (cells ! 3), gender = py_strip (cells ! 4),
                             gender_place = py_strip (cells ! 5), age = ag,
                             age_place = py_strip (cells ! 7), chip_time_str = chip_time_s,
                             chip_time_seconds = secs, pace = py_strip (cells ! 10),
                             start_time = py_strip (cells ! 12) \<rparr>)))"

text \<open>
  The loop over the rows: a row with fewer than 13 cells is skipped, and so is a row
  whose \<^verbatim>\<open>try\<close> block raises.
\<close>

fun parse_rows :: "int \<Rightarrow> string list list \<Rightarrow> race_result list" where
  "parse_rows yr [] = []"
| "parse_rows yr (cells # rest) =
     (if length cells < 13 then parse_rows yr rest
      else (case parse_row yr cells of
              Inl e \<Rightarrow> parse_rows yr rest
            | Inr result \<Rightarrow> result # parse_rows yr rest))"

definition parse_results_table :: "page \<Rightarrow> int \<Rightarrow> race_result list" where
  "parse_results_table soup yr =
     (case results_table soup of
        None \<Rightarrow> []
      | Some trs \<Rightarrow> parse_rows yr (drop 1 trs))"

subsection \<open>\<^verbatim>\<open>scrape_year\<close>\<close>

text \<open>\<^verbatim>\<open>str(n)\<close> for an integer, as the f-string of the year URL prints it.\<close>

fun show_nat :: "nat \<Rightarrow> string" where
  "show_nat n =
     (if n < 10 then [char_of (48 + n)]
      else show_nat (n div 10) @ [char_of (48 + n mod 10)])"

declare show_nat.simps [simp del]

definition show_int :: "int \<Rightarrow> string" where
  "show_int k = (if k < 0 then CHR ''-'' # show_nat (nat (- k)) else show_nat (nat k))"

text \<open>
  A form is a dictionary of strings; assignment to a key keeps the position of a key that
  is already there and appends a new one, as \<^const>\<open>AList.update\<close> does.
\<close>

type_synonym form = "(string \<times> string) list"

definition extract_viewstate :: "page \<Rightarrow> form" where
  "extract_viewstate soup =
     foldl (\<lambda>form_data (nm, val).
              case nm of
                None \<Rightarrow> form_data
              | Some n \<Rightarrow>
                  if n = [] then form_data
                  else AList.update n (case val of None \<Rightarrow> [] | Some v \<Rightarrow> v) form_data)
           [] (inputs soup)"

text \<open>
  The site is the environment of the crawl. It answers one request at a time and may
  keep state between requests (the session): a request and the site's state give a
  response and the next state. A response is a page, or an exception of the transport.
  For a GET the exception also stands for an error status, which \<^verbatim>\<open>get_page\<close> raises
  and catches itself.
\<close>

datatype request = Get string | Post string form

type_synonym 's site = "request \<Rightarrow> 's \<Rightarrow> (exn + page) \<times> 's"

definition max_pages :: nat where
  "max_pages = 100"

definition next_page_form :: "page \<Rightarrow> form" where
  "next_page_form soup =
     AList.update ''__EVENTARGUMENT'' []
       (AList.update ''__EVENTTARGET'' ''ctl00$ContentPlaceHolder1$btnNext''
          (extract_viewstate soup))"

text \<open>
  The \<^verbatim>\<open>while\<close> loop of \<^verbatim>\<open>scrape_year\<close>, from the test of \<^verbatim>\<open>page_num\<close> on. It carries
  the current page, the accumulated results, the site's state and the requests made so
  far, and returns the last three.
\<close>

function scrape_pages ::
  "'s site \<Rightarrow> string \<Rightarrow> int \<Rightarrow> date option \<Rightarrow> nat \<Rightarrow> page \<Rightarrow> race_result list \<Rightarrow> 's \<Rightarrow>
   request list \<Rightarrow> race_result list \<times> 's \<times> request list" where
  "scrape_pages site year_url yr rdate page_num soup all_results st reqs =
     (if page_num \<le> max_pages then
        (let page_results = parse_results_table soup yr
         in if page_results = [] then (all_results, st, reqs)
            else
              (let all_results' =
                     all_results @ map (\<lambda>result. result\<lparr>race_date := rdate\<rparr>) page_results
               in if ''Next >'' \<notin> set (anchors soup) then (all_results', st, reqs)
                  else
                    (let rq = Post year_url (next_page_form soup)
                     in case site rq st of
                          (Inl e, st') \<Rightarrow> (all_results', st', reqs @ [rq])
                        | (Inr soup', st') \<Rightarrow>
                            scrape_pages site year_url yr rdate (page_num + 1) soup'
                              all_results' st' (reqs @ [rq]))))
      else (all_results, st, reqs))"
  by pat_completeness auto
termination
  by (relation "measure (\<lambda>(site, year_url, yr, rdate, page_num, soup, all_results, st, reqs).
                           Suc max_pages - page_num)") auto

declare scrape_pages.simps [simp del]

text \<open>
  \<^verbatim>\<open>scrape_year\<close>. How \<^verbatim>\<open>get_race_date\<close> finds a date in the page text plays no part in
  the crawl, so the date resolver is a parameter here.
\<close>

definition scrape_year ::
  "(string \<Rightarrow> date option) \<Rightarrow> 's site \<Rightarrow> string \<Rightarrow> int \<Rightarrow> 's \<Rightarrow>
   race_result list \<times> 's \<times> request list" where
  "scrape_year get_race_date site base_url yr st =
     (let year_url = base_url @ ''&y='' @ show_int yr
      in case site (Get year_url) st of
           (Inl e, st') \<Rightarrow> ([], st', [Get year_url])
         | (Inr soup, st') \<Rightarrow>
             scrape_pages site year_url yr (get_race_date (page_text soup)) 1 soup [] st'
               [Get year_url])"

section \<open>Weather: \<^verbatim>\<open>WeatherFetcher\<close>\<close>

text \<open>
  A \<^verbatim>\<open>datetime\<close>: its date and the time of day. The race window of \<^verbatim>\<open>config.py\<close> is
  given in hours of the day.
\<close>

record datetime =
  dt_date :: date
  hour :: nat
  minute :: nat
  second :: nat

definition RACE_START_HOUR :: nat where
  "RACE_START_HOUR = 7"

definition RACE_END_HOUR :: nat where
  "RACE_END_HOUR = 11"

text \<open>
  The provider's hourly block: the timestamp array under the key \<^verbatim>\<open>time\<close> and the four
  variable arrays under the keys \<^verbatim>\<open>temperature_2m\<close>, \<^verbatim>\<open>windspeed_10m\<close>,
  \<^verbatim>\<open>winddirection_10m\<close> and \<^verbatim>\<open>wind_gusts_10m\<close> (the fields with the prefix \<open>hourly_\<close>).
  A key that the dictionary lacks is \<open>None\<close>; an entry of a variable array is a number
  or JSON \<^verbatim>\<open>null\<close>.
\<close>

record hourly_data =
  time :: "string list option"
  hourly_temperature :: "real option list option"
  hourly_windspeed :: "real option list option"
  hourly_winddirection :: "real option list option"
  hourly_wind_gusts :: "real option list option"

text \<open>
  One weather record. \<^verbatim>\<open>extract_race_window_data\<close> fills the timestamp and the four
  variables; \<^verbatim>\<open>fetch_weather_for_race\<close> adds the keys \<^verbatim>\<open>year\<close> and \<^verbatim>\<open>race_date\<close> (the
  fields \<open>w_year\<close> and \<open>w_race_date\<close>) and \<^verbatim>\<open>location\<close>.
\<close>

record weather_record =
  w_year :: "int option"
  w_race_date :: "date option"
  timestamp :: datetime
  location :: "string option"
  temperature_2m :: "real option"
  windspeed_10m :: "real option"
  winddirection_10m :: "real option"
  wind_gusts_10m :: "real option"

text \<open>
  \<^verbatim>\<open>xs[i]\<close>: a negative index counts from the end, and an index outside the list raises
  IndexError.
\<close>

definition py_index :: "'a list \<Rightarrow> int \<Rightarrow> exn + 'a" where
  "py_index xs i =
     (if 0 \<le> i \<and> i < int (length xs) then Inr (xs ! nat i)
      else if i < 0 \<and> - int (length xs) \<le> i then Inr (xs ! nat (int (length xs) + i))
      else Inl IndexError)"

text \<open>\<^verbatim>\<open>xs[i] if i < len(xs) else None\<close>, the read of one variable array.\<close>

definition value_at :: "real option list \<Rightarrow> nat \<Rightarrow> exn + real option" where
  "value_at xs i = (if i < length xs then py_index xs (int i) else Inr None)"

text \<open>\<^verbatim>\<open>d.get(key, [])\<close>.\<close>

definition get_or_empty :: "'a list option \<Rightarrow> 'a list" where
  "get_or_empty v = (case v of None \<Rightarrow> [] | Some xs \<Rightarrow> xs)"

text \<open>
  The body of the loop of \<^verbatim>\<open>extract_race_window_data\<close> for the index \<open>i\<close> and its
  timestamp text: an exception, no record (hour outside the window), or one record.
  \<^verbatim>\<open>datetime.fromisoformat\<close> is a parameter: it gives the parsed timestamp, or \<open>None\<close>
  where the library raises ValueError.
\<close>

definition window_record ::
  "(string \<Rightarrow> datetime option) \<Rightarrow> hourly_data \<Rightarrow> nat \<Rightarrow> string \<Rightarrow>
   exn + weather_record option" where
  "window_record fromisoformat hdata i timestamp_str =
     (case fromisoformat timestamp_str of
        None \<Rightarrow> Inl ValueError
      | Some ts \<Rightarrow>
          if RACE_START_HOUR \<le> hour ts \<and> hour ts \<le> RACE_END_HOUR then
            (case value_at (get_or_empty (hourly_temperature hdata)) i of
               Inl e \<Rightarrow> Inl e
             | Inr temp \<Rightarrow>
                 (case value_at (get_or_empty (hourly_windspeed hdata)) i of
                    Inl e \<Rightarrow> Inl e
                  | Inr ws \<Rightarrow>
                      (case value_at (get_or_empty (hourly_winddirection hdata)) i of
                         Inl e \<Rightarrow> Inl e
                       | Inr wd \<Rightarrow>
                           (case value_at (get_or_empty (hourly_wind_gusts hdata)) i of
                              Inl e \<Rightarrow> Inl e
                            | Inr wg \<Rightarrow>
                                Inr (Some \<lparr> w_year = None, w_race_date = None,
                                            timestamp = ts, location = None,
                                            temperature_2m = temp, windspeed_10m = ws,
                                            winddirection_10m = wd,
                                            wind_gusts_10m = wg \<rparr>)))))
          else Inr None)"

text \<open>The loop over \<^verbatim>\<open>enumerate(timestamps)\<close>, from index \<open>i\<close> on; it stops at an exception.\<close>

fun window_loop ::
  "(string \<Rightarrow> datetime option) \<Rightarrow> hourly_data \<Rightarrow> nat \<Rightarrow> string list \<Rightarrow>
   exn + weather_record list" where
  "window_loop fromisoformat hdata i [] = Inr []"
| "window_loop fromisoformat hdata i (t # ts) =
     (case window_record fromisoformat hdata i t of
        Inl e \<Rightarrow> Inl e
      | Inr r \<Rightarrow>
          (case window_loop fromisoformat hdata (Suc i) ts of
             Inl e \<Rightarrow> Inl e
           | Inr rs \<Rightarrow> Inr ((case r of None \<Rightarrow> [] | Some x \<Rightarrow> [x]) @ rs)))"

text \<open>
  \<^verbatim>\<open>extract_race_window_data\<close>; \<open>None\<close> for the block is \<^verbatim>\<open>None\<close> or the empty
  dictionary. The arguments \<^verbatim>\<open>race_date\<close> and \<^verbatim>\<open>year\<close> are not used by the body.
\<close>

definition extract_race_window_data ::
  "(string \<Rightarrow> datetime option) \<Rightarrow> hourly_data option \<Rightarrow> date \<Rightarrow> int \<Rightarrow>
   exn + weather_record list" where
  "extract_race_window_data fromisoformat hourly rdate yr =
     (case hourly of
        None \<Rightarrow> Inr []
      | Some hdata \<Rightarrow> window_loop fromisoformat hdata 0 (get_or_empty (time hdata)))"

text \<open>The two sites of \<^verbatim>\<open>self.locations\<close>, with the coordinates of \<^verbatim>\<open>config.py\<close>.\<close>

definition locations :: "string \<Rightarrow> (real \<times> real) option" where
  "locations location_name =
     (if location_name = ''start'' then Some (37.885, - 122.059)
      else if location_name = ''summit'' then Some (37.881, - 121.914)
      else None)"

text \<open>
  The weather provider is the environment: asked for a latitude, a longitude and a day,
  it raises (transport failure or error status), or answers with a JSON body, of which
  only the entry \<^verbatim>\<open>hourly\<close> is read (\<open>None\<close> when the body has no such entry, or an
  empty one).
\<close>

type_synonym weather_api = "real \<Rightarrow> real \<Rightarrow> date \<Rightarrow> exn + hourly_data option"

definition fetch_weather_for_date :: "weather_api \<Rightarrow> date \<Rightarrow> string \<Rightarrow> hourly_data option" where
  "fetch_weather_for_date api rdate location_name =
     (case locations location_name of
        None \<Rightarrow> None
      | Some (lat, lon) \<Rightarrow>
          (case api lat lon rdate of
             Inl e \<Rightarrow> None
           | Inr hourly \<Rightarrow> hourly))"

text \<open>The race date argument: a date object or a date string.\<close>

datatype race_date_arg = DateObj date | DateStr string

definition fetch_weather_for_race ::
  "(string \<Rightarrow> datetime option) \<Rightarrow> weather_api \<Rightarrow> int \<Rightarrow> race_date_arg \<Rightarrow> string \<Rightarrow>
   exn + weather_record list" where
  "fetch_weather_for_race fromisoformat api yr rdate_arg location_name =
     (case (case rdate_arg of
              DateObj d \<Rightarrow> Some d
            | DateStr s \<Rightarrow> map_option dt_date (fromisoformat s)) of
        None \<Rightarrow> Inr []
      | Some rdate \<Rightarrow>
          (case fetch_weather_for_date api rdate location_name of
             None \<Rightarrow> Inr []
           | Some hourly \<Rightarrow>
               (case extract_race_window_data fromisoformat (Some hourly) rdate yr of
                  Inl e \<Rightarrow> Inl e
                | Inr race_window_data \<Rightarrow>
                    Inr (map (\<lambda>wrec. wrec\<lparr> w_year := Some yr, w_race_date := Some rdate,
                                                 location := Some location_name \<rparr>)
                             race_window_data))))"

text \<open>
  The provider writes an hourly timestamp as \<^verbatim>\<open>YYYY-MM-DDTHH:MM\<close>. This reader of that
  one shape is an instance of the parameter \<open>fromisoformat\<close> used in the examples.
\<close>

definition two_digits :: "char \<Rightarrow> char \<Rightarrow> nat" where
  "two_digits a b = 10 * digit_val a + digit_val b"

definition days_in_month :: "nat \<Rightarrow> nat \<Rightarrow> nat" where
  "days_in_month y m =
     (if m = 2 then (if y mod 4 = 0 \<and> (y mod 100 \<noteq> 0 \<or> y mod 400 = 0) then 29 else 28)
      else if m = 4 \<or> m = 6 \<or> m = 9 \<or> m = 11 then 30
      else 31)"

fun iso_minute :: "string \<Rightarrow> datetime option" where
  "iso_minute [y1, y2, y3, y4, sep1, m1, m2, sep2, d1, d2, sep3, h1, h2, sep4, n1, n2] =
     (if sep1 = CHR ''-'' \<and> sep2 = CHR ''-'' \<and> sep3 = CHR ''T'' \<and> sep4 = CHR '':''
         \<and> list_all is_digit [y1, y2, y3, y4, m1, m2, d1, d2, h1, h2, n1, n2]
         \<and> 1 \<le> digits_to_nat [y1, y2, y3, y4]
         \<and> 1 \<le> two_digits m1 m2 \<and> two_digits m1 m2 \<le> 12
         \<and> 1 \<le> two_digits d1 d2
         \<and> two_digits d1 d2 \<le> days_in_month (digits_to_nat [y1, y2, y3, y4]) (two_digits m1 m2)
         \<and> two_digits h1 h2 < 24 \<and> two_digits n1 n2 < 60
      then Some \<lparr> dt_date = Date (int (digits_to_nat [y1, y2, y3, y4])) (two_digits m1 m2)
                                  (two_digits d1 d2),
                  hour = two_digits h1 h2, minute = two_digits n1 n2, second = 0 \<rparr>
      else None)"
| "iso_minute s = None"

section \<open>Storage: \<^verbatim>\<open>DiabloDatabase\<close>\<close>

text \<open>
  The database as the open connection sees it: the rows of the two tables in insertion
  order, each with its \<^verbatim>\<open>id\<close>, and for each table the largest id given so far
  (\<^verbatim>\<open>AUTOINCREMENT\<close>). The columns of a row are the values of the dictionary it was
  inserted from; the column \<^verbatim>\<open>created_at\<close>, and \<^verbatim>\<open>commit\<close>, are not modelled.
\<close>

record db =
  race_results :: "(nat \<times> race_result) list"
  race_results_seq :: nat
  weather_data :: "(nat \<times> weather_record) list"
  weather_data_seq :: nat

text \<open>\<^verbatim>\<open>SELECT COUNT(*) FROM race_results WHERE year = ?\<close> and the same for the weather table.\<close>

definition count_race_year :: "db \<Rightarrow> int \<Rightarrow> nat" where
  "count_race_year d y = length (filter (\<lambda>(i, r). year r = Some y) (race_results d))"

definition count_weather_year :: "db \<Rightarrow> int \<Rightarrow> nat" where
  "count_weather_year d y = length (filter (\<lambda>(i, r). w_year r = Some y) (weather_data d))"

definition year_exists :: "db \<Rightarrow> int \<Rightarrow> bool" where
  "year_exists d y = (count_race_year d y > 0)"

text \<open>\<^verbatim>\<open>DELETE FROM race_results WHERE year = ?\<close> and \<^verbatim>\<open>DELETE FROM weather_data WHERE year = ?\<close>.\<close>

definition delete_race_year :: "int \<Rightarrow> db \<Rightarrow> db" where
  "delete_race_year y d =
     d\<lparr> race_results := filter (\<lambda>(i, r). year r \<noteq> Some y) (race_results d) \<rparr>"

definition delete_weather_year :: "int \<Rightarrow> db \<Rightarrow> db" where
  "delete_weather_year y d =
     d\<lparr> weather_data := filter (\<lambda>(i, r). w_year r \<noteq> Some y) (weather_data d) \<rparr>"

text \<open>
  \<^verbatim>\<open>set(r.get('year') for r in rows if r.get('year'))\<close>: the years of the batch that are
  true as a condition, that is neither \<^verbatim>\<open>None\<close> nor \<open>0\<close>, each once. The deletions
  for different years do not depend on their order, so the set is a duplicate-free list.
\<close>

definition years_to_replace :: "int option list \<Rightarrow> int list" where
  "years_to_replace ys = remdups [y. Some y \<leftarrow> ys, y \<noteq> 0]"

text \<open>A float bound to a \<^verbatim>\<open>REAL\<close> column: SQLite stores NaN as \<^verbatim>\<open>NULL\<close>.\<close>

definition sql_real :: "pyfloat option \<Rightarrow> pyfloat option" where
  "sql_real v = (case v of Some NaN \<Rightarrow> None | _ \<Rightarrow> v)"

text \<open>The columns stored for a result dictionary.\<close>

definition stored_result :: "race_result \<Rightarrow> race_result" where
  "stored_result result = result\<lparr> chip_time_seconds := sql_real (chip_time_seconds result) \<rparr>"

text \<open>
  The insertion loop. The column \<^verbatim>\<open>year\<close> is \<^verbatim>\<open>NOT NULL\<close>: a row without a year raises
  IntegrityError and ends the loop; the rows before it stay inserted in the connection.
  The result is the exception raised, if any, and the database.
\<close>

fun insert_race_rows :: "race_result list \<Rightarrow> db \<Rightarrow> exn option \<times> db" where
  "insert_race_rows [] d = (None, d)"
| "insert_race_rows (result # rest) d =
     (case year result of
        None \<Rightarrow> (Some IntegrityError, d)
      | Some y \<Rightarrow>
          insert_race_rows rest
            (d\<lparr> race_results :=
                   race_results d @ [(Suc (race_results_seq d), stored_result result)],
                 race_results_seq := Suc (race_results_seq d) \<rparr>))"

fun insert_weather_rows :: "weather_record list \<Rightarrow> db \<Rightarrow> exn option \<times> db" where
  "insert_weather_rows [] d = (None, d)"
| "insert_weather_rows (wrec # rest) d =
     (case w_year wrec of
        None \<Rightarrow> (Some IntegrityError, d)
      | Some y \<Rightarrow>
          insert_weather_rows rest
            (d\<lparr> weather_data := weather_data d @ [(Suc (weather_data_seq d), wrec)],
                 weather_data_seq := Suc (weather_data_seq d) \<rparr>))"

definition insert_race_results :: "race_result list \<Rightarrow> bool \<Rightarrow> db \<Rightarrow> exn option \<times> db" where
  "insert_race_results results replace_existing d =
     insert_race_rows results
       (if replace_existing \<and> results \<noteq> [] then
          fold (\<lambda>y d'. if year_exists d' y then delete_race_year y d' else d')
               (years_to_replace (map year results)) d
        else d)"

text \<open>
  \<^verbatim>\<open>insert_weather_data\<close> asks \<^verbatim>\<open>year_exists\<close> too, which counts the rows of
  \<^verbatim>\<open>race_results\<close>, before it deletes from \<^verbatim>\<open>weather_data\<close>.
\<close>

definition insert_weather_data :: "weather_record list \<Rightarrow> bool \<Rightarrow> db \<Rightarrow> exn option \<times> db" where
  "insert_weather_data weather_records replace_existing d =
     insert_weather_rows weather_records
       (if replace_existing \<and> weather_records \<noteq> [] then
          fold (\<lambda>y d'. if year_exists d' y then delete_weather_year y d' else d')
               (years_to_replace (map w_year weather_records)) d
        else d)"

subsection \<open>\<^verbatim>\<open>get_percentiles_by_year\<close>\<close>

text \<open>
  The order of \<^verbatim>\<open>ORDER BY chip_time_seconds\<close> on the stored floats: minus infinity, the
  finite values, plus infinity. (NaN is never stored.)
\<close>

definition float_key :: "pyfloat \<Rightarrow> int \<times> real" where
  "float_key v = (case v of NInf \<Rightarrow> (- 1, 0) | Fin x \<Rightarrow> (0, x) | PInf \<Rightarrow> (1, 0) | NaN \<Rightarrow> (2, 0))"

text \<open>The chip times of a year that are not \<^verbatim>\<open>NULL\<close>, in table order.\<close>

definition year_chip_times :: "db \<Rightarrow> int \<Rightarrow> pyfloat list" where
  "year_chip_times d y =
     [v. (i, r) \<leftarrow> race_results d, year r = Some y, Some v \<leftarrow> [chip_time_seconds r]]"

text \<open>
  \<^verbatim>\<open>int(n * p / 100)\<close>: the quotient cut towards zero. (The float quotient is taken as
  exact.)
\<close>

definition int_of_quotient :: "int \<Rightarrow> int \<Rightarrow> int" where
  "int_of_quotient a b = (if 0 \<le> a then a div b else - ((- a) div b))"

fun percentile_loop ::
  "pyfloat list \<Rightarrow> int list \<Rightarrow> (string \<times> pyfloat) list \<Rightarrow> exn + (string \<times> pyfloat) list" where
  "percentile_loop chip_times [] result = Inr result"
| "percentile_loop chip_times (p # ps) result =
     (let idx = int_of_quotient (int (length chip_times) * p) 100;
          idx' = (if idx \<ge> int (length chip_times) then int (length chip_times) - 1 else idx)
      in case py_index chip_times idx' of
           Inl e \<Rightarrow> Inl e
         | Inr v \<Rightarrow> percentile_loop chip_times ps (AList.update (''p'' @ show_int p) v result))"

text \<open>The result dictionary has the keys \<^verbatim>\<open>p25\<close>, \<^verbatim>\<open>p50\<close>, ... in the order of the list.\<close>

definition get_percentiles_by_year ::
  "db \<Rightarrow> int \<Rightarrow> int list \<Rightarrow> exn + (string \<times> pyfloat) list" where
  "get_percentiles_by_year d y percentiles =
     (let chip_times = sort_key float_key (year_chip_times d y)
      in if chip_times = [] then Inr [] else percentile_loop chip_times percentiles [])"

section \<open>Analysis\<close>

subsection \<open>Float arithmetic with the special values\<close>

definition inf_signed :: "bool \<Rightarrow> pyfloat" where
  "inf_signed negative = (if negative then NInf else PInf)"

fun float_neg :: "pyfloat \<Rightarrow> pyfloat" where
  "float_neg (Fin x) = Fin (- x)"
| "float_neg PInf = NInf"
| "float_neg NInf = PInf"
| "float_neg NaN = NaN"

fun float_add :: "pyfloat \<Rightarrow> pyfloat \<Rightarrow> pyfloat" where
  "float_add (Fin x) (Fin y) = Fin (x + y)"
| "float_add NaN b = NaN"
| "float_add a NaN = NaN"
| "float_add PInf NInf = NaN"
| "float_add NInf PInf = NaN"
| "float_add PInf b = PInf"
| "float_add a PInf = PInf"
| "float_add NInf b = NInf"
| "float_add a NInf = NInf"

definition float_sub :: "pyfloat \<Rightarrow> pyfloat \<Rightarrow> pyfloat" where
  "float_sub a b = float_add a (float_neg b)"

fun float_mul :: "pyfloat \<Rightarrow> pyfloat \<Rightarrow> pyfloat" where
  "float_mul (Fin x) (Fin y) = Fin (x * y)"
| "float_mul NaN b = NaN"
| "float_mul a NaN = NaN"
| "float_mul (Fin x) PInf = (if x = 0 then NaN else inf_signed (x < 0))"
| "float_mul (Fin x) NInf = (if x = 0 then NaN else inf_signed (0 < x))"
| "float_mul PInf (Fin y) = (if y = 0 then NaN else inf_signed (y < 0))"
| "float_mul NInf (Fin y) = (if y = 0 then NaN else inf_signed (0 < y))"
| "float_mul PInf PInf = PInf"
| "float_mul PInf NInf = NInf"
| "float_mul NInf PInf = NInf"
| "float_mul NInf NInf = PInf"


subsection \<open>\<^verbatim>\<open>calculate_yearly_statistics\<close>\<close>

text \<open>
  \<^verbatim>\<open>Series.quantile(q)\<close> of the library, with its default linear interpolation: on the
  sorted column of \<open>n\<close> values the position is \<open>h = q (n - 1)\<close>, and the result lies
  between the order statistics at \<open>\<lfloor>h\<rfloor>\<close> and \<open>\<lfloor>h\<rfloor> + 1\<close>, at the fraction \<open>h - \<lfloor>h\<rfloor>\<close>.
  A fraction outside 0..1 raises ValueError; an empty column gives NaN.
\<close>

definition quantile :: "real \<Rightarrow> pyfloat list \<Rightarrow> exn + pyfloat" where
  "quantile q xs =
     (if q < 0 \<or> 1 < q then Inl ValueError
      else if xs = [] then Inr NaN
      else
        (let s = sort_key float_key xs;
             n = length s;
             h = q * real (n - 1);
             lo = nat \<lfloor>h\<rfloor>;
             hi = min (lo + 1) (n - 1);
             t = h - real lo
         in Inr (float_add (s ! lo) (float_mul (float_sub (s ! hi) (s ! lo)) (Fin t)))))"

text \<open>
  The percentile as the specification words it, for comparison with the two layers:
  linear interpolation between the order statistics of finite values. At the fraction
  \<open>q\<close> of \<open>n\<close> sorted values the position is \<open>h = q (n - 1)\<close>; the value lies between
  the entries at \<open>\<lfloor>h\<rfloor>\<close> and at the next index, in proportion to \<open>h - \<lfloor>h\<rfloor>\<close>.
\<close>

definition interpolated_quantile :: "real \<Rightarrow> real list \<Rightarrow> real" where
  "interpolated_quantile q xs =
     (let s = sort xs;
          h = q * real (length xs - 1);
          k = nat \<lfloor>h\<rfloor>
      in s ! k + (s ! min (k + 1) (length xs - 1) - s ! k) * (h - real k))"

text \<open>
  One row of the statistics table, with the columns \<^verbatim>\<open>count\<close>, \<^verbatim>\<open>median\<close>, \<^verbatim>\<open>p25\<close> and
  \<^verbatim>\<open>p75\<close>. The columns \<^verbatim>\<open>mean\<close>, \<^verbatim>\<open>std\<close>, \<^verbatim>\<open>min\<close>, \<^verbatim>\<open>max\<close> and the formatted
  copies are left out of the model.
\<close>

record year_stats =
  stat_year :: int
  stat_count :: nat
  median :: pyfloat
  p25 :: pyfloat
  p75 :: pyfloat

definition year_statistics :: "db \<Rightarrow> int \<Rightarrow> exn + year_stats" where
  "year_statistics d y =
     (let x = year_chip_times d y
      in case quantile 0.5 x of
           Inl e \<Rightarrow> Inl e
         | Inr med \<Rightarrow>
             (case quantile 0.25 x of
                Inl e \<Rightarrow> Inl e
              | Inr q1 \<Rightarrow>
                  (case quantile 0.75 x of
                     Inl e \<Rightarrow> Inl e
                   | Inr q3 \<Rightarrow>
                       Inr \<lparr> stat_year = y, stat_count = length x, median = med,
                             p25 = q1, p75 = q3 \<rparr>)))"

fun statistics_rows :: "db \<Rightarrow> int list \<Rightarrow> exn + year_stats list" where
  "statistics_rows d [] = Inr []"
| "statistics_rows d (y # ys) =
     (case year_statistics d y of
        Inl e \<Rightarrow> Inl e
      | Inr row \<Rightarrow>
          (case statistics_rows d ys of
             Inl e \<Rightarrow> Inl e
           | Inr rows \<Rightarrow> Inr (row # rows)))"

text \<open>
  The rows with a chip time are grouped by year; \<^verbatim>\<open>groupby\<close> gives the groups in
  ascending order of the year.
\<close>

definition calculate_yearly_statistics :: "db \<Rightarrow> exn + year_stats list" where
  "calculate_yearly_statistics d =
     statistics_rows d
       (sort (remdups [y. (i, r) \<leftarrow> race_results d, Some y \<leftarrow> [year r],
                          chip_time_seconds r \<noteq> None]))"

section \<open>Dashboard: \<^verbatim>\<open>calculate_correlation\<close>\<close>









section \<open>Sample data\<close>

text \<open>The sample row of the module test in \<^verbatim>\<open>database.py\<close>.\<close>

definition sample_result :: race_result where
  "sample_result =
     \<lparr> year = Some 2025, race_date = Some (Date 2025 10 5), place = Some 1,
       name = ''Test Racer'', team = ''Test Team'', city_state = ''Test City'',
       gender = ''M'', gender_place = ''1'', age = Some 30, age_place = ''1 / 10'',
       chip_time_str = ''00:45:00.0'', chip_time_seconds = Some (Fin 2700),
       pace = ''4:00/mile'', start_time = ''8:00 AM'' \<rparr>"

text \<open>The thirteen cells of a table row for that rider, with a given place and chip time.\<close>

definition sample_cells :: "string \<Rightarrow> string \<Rightarrow> string list" where
  "sample_cells place_text chip_text =
     [place_text, ''Test Racer'', ''Test Team'', ''Test City'', ''M'', ''1'', ''30'',
      ''1 / 10'', [], chip_text, ''4:00/mile'', [], ''8:00 AM'']"

text \<open>A results page with a header row, the given rows and the given anchors.\<close>

definition sample_page :: "string list list \<Rightarrow> string list \<Rightarrow> page" where
  "sample_page trs links =
     \<lparr> page_text = ''October 5, 2025'',
       results_table = Some ([''Place'', ''Name''] # trs),
       anchors = links,
       inputs = [(Some ''__VIEWSTATE'', Some ''state''), (None, Some ''q'')] \<rparr>"

text \<open>One hourly record at the start, for a given year.\<close>

definition sample_weather :: "int \<Rightarrow> weather_record" where
  "sample_weather yr =
     \<lparr> w_year = Some yr, w_race_date = Some (Date yr 10 5),
       timestamp = \<lparr> dt_date = Date yr 10 5, hour = 8, minute = 0, second = 0 \<rparr>,
       location = Some ''start'', temperature_2m = Some 61, windspeed_10m = Some 5,
       winddirection_10m = Some 270, wind_gusts_10m = Some 12 \<rparr>"

text \<open>
  A site with three result pages for a year: its state counts the requests answered so
  far. Pages one and two have a row and the link to the next page, page three has a row
  and no such link.
\<close>

definition sample_site :: "nat site" where
  "sample_site rq n =
     (if n = 0 then Inr (sample_page [sample_cells ''1'' ''00:45:00.0''] [''Next >''])
      else if n = 1 then Inr (sample_page [sample_cells ''2'' ''00:46:00.0''] [''< Prev'', ''Next >''])
      else if n = 2 then Inr (sample_page [sample_cells ''3'' ''00:47:00.0''] [''< Prev''])
      else Inl RequestException,
      Suc n)"

text \<open>The 24 hourly timestamps of 2025-10-05, as the provider writes them.\<close>

definition day_times :: "string list" where
  "day_times =
     [''2025-10-05T00:00'', ''2025-10-05T01:00'', ''2025-10-05T02:00'', ''2025-10-05T03:00'',
      ''2025-10-05T04:00'', ''2025-10-05T05:00'', ''2025-10-05T06:00'', ''2025-10-05T07:00'',
      ''2025-10-05T08:00'', ''2025-10-05T09:00'', ''2025-10-05T10:00'', ''2025-10-05T11:00'',
      ''2025-10-05T12:00'', ''2025-10-05T13:00'', ''2025-10-05T14:00'', ''2025-10-05T15:00'',
      ''2025-10-05T16:00'', ''2025-10-05T17:00'', ''2025-10-05T18:00'', ''2025-10-05T19:00'',
      ''2025-10-05T20:00'', ''2025-10-05T21:00'', ''2025-10-05T22:00'', ''2025-10-05T23:00'']"

text \<open>
  An hourly block with given timestamps and temperatures; wind speed and direction have
  one entry for each timestamp, and the block has no gust array.
\<close>

definition sample_hourly :: "string list \<Rightarrow> real option list \<Rightarrow> hourly_data" where
  "sample_hourly ts temps =
     \<lparr> time = Some ts,
       hourly_temperature = Some temps,
       hourly_windspeed = Some (map (\<lambda>t. Some 5) ts),
       hourly_winddirection = Some (map (\<lambda>t. Some 270) ts),
       hourly_wind_gusts = None \<rparr>"

text \<open>A database holding one result of the year 2024 for each of the given chip times.\<close>

definition results_db :: "real list \<Rightarrow> db" where
  "results_db secs =
     snd (insert_race_results
            (map (\<lambda>t. sample_result\<lparr> year := Some 2024, chip_time_seconds := Some (Fin t) \<rparr>) secs)
            False
            \<lparr> race_results = [], race_results_seq = 0, weather_data = [], weather_data_seq = 0 \<rparr>)"

definition empty_db :: db where
  "empty_db = \<lparr> race_results = [], race_results_seq = 0, weather_data = [], weather_data_seq = 0 \<rparr>"

section \<open>Properties of the duration parser\<close>

lemma py_split_not_Nil: "py_split sep s \<noteq> []"
  by (induction s) (auto split: list.splits)


lemma strip_with_Nil_imp: "strip_with sp s \<noteq> [] \<Longrightarrow> s \<noteq> []"
  by (auto simp: strip_with_def)









section \<open>Properties of the parsed rows\<close>

lemma strip_with_idem: "strip_with sp (strip_with sp s) = strip_with sp s"
proof -
  define u where "u = dropWhile sp s"
  define v where "v = dropWhile sp (rev u)"
  have v_stable: "dropWhile sp v = v"
    unfolding v_def by simp
  have "dropWhile sp (rev v) = rev v"
  proof (cases "v = []")
    case True
    then show ?thesis by simp
  next
    case False
    obtain w where w: "rev u = w @ v"
      unfolding v_def by (metis takeWhile_dropWhile_id)
    then have u_eq: "u = rev v @ rev w"
      by (metis rev_append rev_rev_ident)
    from False have "rev v \<noteq> []" by simp
    then have hd_eq: "hd (rev v) = hd u"
      using u_eq by simp
    from False u_eq have "u \<noteq> []" by auto
    then have "\<not> sp (hd u)"
      unfolding u_def by (metis hd_dropWhile)
    with hd_eq \<open>rev v \<noteq> []\<close> show ?thesis
      by (cases "rev v") auto
  qed
  then show ?thesis
    using v_stable by (simp add: strip_with_def u_def v_def)
qed

lemma set_strip_with: "set (strip_with sp s) \<subseteq> set s"
proof -
  have "set (dropWhile sp (rev (dropWhile sp s))) \<subseteq> set (rev (dropWhile sp s))"
    by (meson set_dropWhileD subsetI)
  moreover have "set (dropWhile sp s) \<subseteq> set s"
    by (meson set_dropWhileD subsetI)
  ultimately show ?thesis
    by (auto simp: strip_with_def)
qed

lemma set_del_underscores: "del_underscores prev s = Some t \<Longrightarrow> set t \<subseteq> set s"
proof (induction s arbitrary: prev t)
  case Nil
  then show ?case by (simp split: if_splits)
next
  case (Cons c cs)
  show ?case
  proof (cases "c = CHR ''_''")
    case True
    with Cons.prems have "del_underscores c cs = Some t"
      by (simp split: if_splits)
    then have "set t \<subseteq> set cs" by (rule Cons.IH)
    then show ?thesis by auto
  next
    case False
    with Cons.prems obtain t' where t': "del_underscores c cs = Some t'" "t = c # t'"
      by (auto split: if_splits)
    from t'(1) have "set t' \<subseteq> set cs" by (rule Cons.IH)
    with t'(2) show ?thesis by auto
  qed
qed

lemma set_py_split: "p \<in> set (py_split sep s) \<Longrightarrow> set p \<subseteq> set s"
proof (induction s arbitrary: p)
  case Nil
  then show ?case by simp
next
  case (Cons c cs)
  show ?case
  proof (cases "c = sep")
    case True
    with Cons show ?thesis by auto
  next
    case False
    obtain q qs where q: "py_split sep cs = q # qs"
      using py_split_not_Nil [of sep cs] by (cases "py_split sep cs") auto
    with False Cons.prems have "p = c # q \<or> p \<in> set qs" by auto
    then show ?thesis
    proof
      assume "p = c # q"
      moreover have "set q \<subseteq> set cs" using Cons.IH [of q] q by simp
      ultimately show ?thesis by auto
    next
      assume "p \<in> set qs"
      then have "set p \<subseteq> set cs" using Cons.IH [of p] q by simp
      then show ?thesis by auto
    qed
  qed
qed

lemma take_sign_no_minus:
  "CHR ''-'' \<notin> set s \<Longrightarrow> take_sign s = (neg, ds) \<Longrightarrow> \<not> neg"
  by (cases s) (auto simp: take_sign_def split: if_splits)

lemma py_int_no_minus:
  assumes "py_int s = Inr k" and "CHR ''-'' \<notin> set s"
  shows "0 \<le> k"
proof -
  from assms(1) obtain t where t: "del_underscores (CHR 0x00) s = Some t"
    by (auto simp: py_int_def split: option.splits)
  obtain neg ds where nd: "take_sign (strip_with num_isspace t) = (neg, ds)"
    by (cases "take_sign (strip_with num_isspace t)")
  have "CHR ''-'' \<notin> set (strip_with num_isspace t)"
    using set_strip_with [of num_isspace t] set_del_underscores [OF t] assms(2) by blast
  then have "\<not> neg" using nd by (rule take_sign_no_minus)
  with assms(1) t nd show ?thesis
    by (auto simp: py_int_def split: if_splits)
qed

lemma scale10_nonneg: "0 \<le> q \<Longrightarrow> 0 \<le> scale10 q e"
  by (simp add: scale10_def)

lemma parse_decimal_nonneg: "parse_decimal s = Some q \<Longrightarrow> 0 \<le> q"
  by (auto simp: parse_decimal_def Let_def scale10_nonneg split: if_splits)

lemma py_float_no_minus:
  assumes "py_float s = Inr v" and "CHR ''-'' \<notin> set s"
  shows "v = NaN \<or> float_nonneg v"
proof -
  from assms(1) obtain t where t: "del_underscores (CHR 0x00) s = Some t"
    by (auto simp: py_float_def split: option.splits)
  obtain neg body where nd: "take_sign (strip_with num_isspace t) = (neg, body)"
    by (cases "take_sign (strip_with num_isspace t)")
  have "CHR ''-'' \<notin> set (strip_with num_isspace t)"
    using set_strip_with [of num_isspace t] set_del_underscores [OF t] assms(2) by blast
  then have "\<not> neg" using nd by (rule take_sign_no_minus)
  with assms(1) t nd show ?thesis
    by (auto simp: py_float_def Let_def dest: parse_decimal_nonneg
             split: if_splits option.splits)
qed

lemma int_add_float_nonneg:
  "0 \<le> k \<Longrightarrow> v = NaN \<or> float_nonneg v \<Longrightarrow>
   int_add_float k v = NaN \<or> float_nonneg (int_add_float k v)"
  by (cases v) auto

lemma chip_time_try_no_minus:
  assumes "chip_time_try s = Inr (Some v)" and "CHR ''-'' \<notin> set s"
  shows "v = NaN \<or> float_nonneg v"
proof -
  have parts: "\<And>p. p \<in> set (py_split CHR '':'' s) \<Longrightarrow> CHR ''-'' \<notin> set p"
    using set_py_split assms(2) by blast
  consider (three) "length (py_split CHR '':'' s) = 3"
    | (two) "length (py_split CHR '':'' s) = 2"
    | (other) "length (py_split CHR '':'' s) \<noteq> 3" "length (py_split CHR '':'' s) \<noteq> 2"
    by blast
  then show ?thesis
  proof cases
    case three
    then obtain a b c where abc: "py_split CHR '':'' s = [a, b, c]"
      by (auto simp: length_Suc_conv numeral_3_eq_3)
    with assms(1) obtain hours minutes seconds where
      r: "py_int a = Inr hours" "py_int b = Inr minutes" "py_float c = Inr seconds"
         "v = int_add_float (hours * 3600 + minutes * 60) seconds"
      by (auto simp: chip_time_try_def Let_def split: sum.splits)
    have "0 \<le> hours" using py_int_no_minus [OF r(1)] parts abc by simp
    moreover have "0 \<le> minutes" using py_int_no_minus [OF r(2)] parts abc by simp
    moreover have "seconds = NaN \<or> float_nonneg seconds"
      using py_float_no_minus [OF r(3)] parts abc by simp
    ultimately show ?thesis
      unfolding r(4) by (intro int_add_float_nonneg) auto
  next
    case two
    then obtain a b where ab: "py_split CHR '':'' s = [a, b]"
      by (auto simp: length_Suc_conv numeral_2_eq_2)
    with assms(1) obtain minutes seconds where
      r: "py_int a = Inr minutes" "py_float b = Inr seconds"
         "v = int_add_float (minutes * 60) seconds"
      by (auto simp: chip_time_try_def Let_def split: sum.splits)
    have "0 \<le> minutes" using py_int_no_minus [OF r(1)] parts ab by simp
    moreover have "seconds = NaN \<or> float_nonneg seconds"
      using py_float_no_minus [OF r(2)] parts ab by simp
    ultimately show ?thesis
      unfolding r(3) by (intro int_add_float_nonneg) auto
  next
    case other
    with assms(1) show ?thesis by (simp add: chip_time_try_def)
  qed
qed

lemma parse_chip_time_no_minus:
  assumes "parse_chip_time s = Inr (Some v)" and "CHR ''-'' \<notin> set s"
  shows "v = NaN \<or> float_nonneg v"
proof -
  from assms(1) have "chip_time_try (py_strip s) = Inr (Some v)"
    by (auto simp: parse_chip_time_def split: if_splits sum.splits)
  moreover have "CHR ''-'' \<notin> set (py_strip s)"
    using set_strip_with [of py_isspace s] assms(2) by (auto simp: py_strip_def)
  ultimately show ?thesis by (rule chip_time_try_no_minus)
qed

lemma parse_chip_time_strip: "parse_chip_time (py_strip s) = parse_chip_time s"
proof -
  have idem: "py_strip (py_strip s) = py_strip s"
    by (simp add: py_strip_def strip_with_idem)
  have "py_strip s \<noteq> [] \<Longrightarrow> s \<noteq> []"
    by (auto simp: py_strip_def strip_with_def)
  then show ?thesis
    by (auto simp: parse_chip_time_def idem)
qed

lemma parse_row_chip_time:
  "parse_row yr cells = Inr r \<Longrightarrow> parse_chip_time (chip_time_str r) = Inr (chip_time_seconds r)"
  by (auto simp: parse_row_def Let_def parse_chip_time_strip split: sum.splits)

lemma parse_rows_chip_time:
  "r \<in> set (parse_rows yr trs) \<Longrightarrow>
   parse_chip_time (chip_time_str r) = Inr (chip_time_seconds r)"
  by (induction trs) (auto split: if_splits sum.splits dest: parse_row_chip_time)

lemma parse_results_table_chip_time:
  "r \<in> set (parse_results_table soup yr) \<Longrightarrow>
   parse_chip_time (chip_time_str r) = Inr (chip_time_seconds r)"
  by (auto simp: parse_results_table_def split: option.splits dest: parse_rows_chip_time)
text \<open>
  Claim C7, as the code has it. For every row that \<^const>\<open>parse_results_table\<close> produces,
  the chip time in seconds is the value of \<^const>\<open>parse_chip_time\<close> on the chip time text
  of the same row, so equal texts give equal seconds. When the text has no minus sign,
  the seconds, if present, are NaN or not negative. (A text with a minus sign can give
  negative seconds: see the counterexample.)
\<close>

theorem chip_time_seconds_from_text:
  assumes "r \<in> set (parse_results_table soup yr)"
  shows "parse_chip_time (chip_time_str r) = Inr (chip_time_seconds r)
         \<and> (CHR ''-'' \<notin> set (chip_time_str r) \<longrightarrow>
              (\<forall>v. chip_time_seconds r = Some v \<longrightarrow> v = NaN \<or> float_nonneg v))"
proof -
  have eq: "parse_chip_time (chip_time_str r) = Inr (chip_time_seconds r)"
    using assms by (rule parse_results_table_chip_time)
  then show ?thesis
    using parse_chip_time_no_minus [of "chip_time_str r"] by auto
qed

theorem chip_time_seconds_from_text_witness:
  "sample_result\<lparr>race_date := None\<rparr>
     \<in> set (parse_results_table (sample_page [sample_cells ''1'' ''00:45:00.0''] []) 2025)
   \<and> CHR ''-'' \<notin> set (chip_time_str (sample_result\<lparr>race_date := None\<rparr>))
   \<and> chip_time_seconds (sample_result\<lparr>race_date := None\<rparr>) = Some (Fin 2700)
   \<and> parse_chip_time ''00:45:00.0'' = Inr (Some (Fin 2700))
   \<and> float_nonneg (Fin 2700)"
proof -
  have mem: "sample_result\<lparr>race_date := None\<rparr>
     \<in> set (parse_results_table (sample_page [sample_cells ''1'' ''00:45:00.0''] []) 2025)"
    by code_simp
  have str_eq: "chip_time_str (sample_result\<lparr>race_date := None\<rparr>) = ''00:45:00.0''"
    by (simp add: sample_result_def)
  have secs: "chip_time_seconds (sample_result\<lparr>race_date := None\<rparr>) = Some (Fin 2700)"
    by (simp add: sample_result_def)
  from chip_time_seconds_from_text [OF mem] str_eq secs
  have "parse_chip_time ''00:45:00.0'' = Inr (Some (Fin 2700))" by simp
  with mem str_eq secs show ?thesis by simp
qed

text \<open>
  The claim C7 as stated fails: the chip time text \<^verbatim>\<open>-1:00\<close> is read as minus one
  minute, and the row carries \<open>-60\<close> seconds.
\<close>

theorem chip_time_seconds_negative:
  "map chip_time_seconds
     (parse_results_table (sample_page [sample_cells ''1'' ''-1:00''] []) 2025)
     = [Some (Fin (- 60))]
   \<and> \<not> float_nonneg (Fin (- 60))"
  by code_simp

section \<open>Properties of the storage layer\<close>

subsection \<open>The insertion loops\<close>

lemma insert_race_rows_weather:
  "weather_data (snd (insert_race_rows rs d)) = weather_data d"
  by (induction rs arbitrary: d) (auto split: option.splits)

lemma insert_race_rows_appends:
  "\<exists>new. race_results (snd (insert_race_rows rs d)) = race_results d @ new
         \<and> snd ` set new \<subseteq> stored_result ` set rs"
proof (induction rs arbitrary: d)
  case Nil
  then show ?case by simp
next
  case (Cons r rs)
  show ?case
  proof (cases "year r")
    case None
    then show ?thesis by simp
  next
    case (Some y)
    let ?d = "d\<lparr> race_results := race_results d @ [(Suc (race_results_seq d), stored_result r)],
                  race_results_seq := Suc (race_results_seq d) \<rparr>"
    from Cons.IH [of ?d] obtain new where
      new: "race_results (snd (insert_race_rows rs ?d)) = race_results ?d @ new"
           "snd ` set new \<subseteq> stored_result ` set rs"
      by blast
    have "race_results (snd (insert_race_rows (r # rs) d))
            = race_results d @ ((Suc (race_results_seq d), stored_result r) # new)"
      using Some new(1) by simp
    moreover have "snd ` set ((Suc (race_results_seq d), stored_result r) # new)
                     \<subseteq> stored_result ` set (r # rs)"
      using new(2) by auto
    ultimately show ?thesis by blast
  qed
qed

lemma insert_race_rows_all:
  assumes "\<forall>r\<in>set rs. year r \<noteq> None"
  shows "fst (insert_race_rows rs d) = None
         \<and> map snd (race_results (snd (insert_race_rows rs d)))
             = map snd (race_results d) @ map stored_result rs"
  using assms
proof (induction rs arbitrary: d)
  case Nil
  then show ?case by simp
next
  case (Cons r rs)
  then obtain y where y: "year r = Some y" by auto
  from Cons.prems have rest: "\<forall>r\<in>set rs. year r \<noteq> None" by simp
  show ?case
    using y Cons.IH [OF rest] by simp
qed

lemma year_stored_result [simp]: "year (stored_result r) = year r"
  by (simp add: stored_result_def)

subsection \<open>The deletions before a replacement\<close>

lemma filter_other_years_id:
  assumes "count_race_year d y = 0"
  shows "filter (\<lambda>(i, r). year r \<noteq> Some y) (race_results d) = race_results d"
proof -
  from assms have "filter (\<lambda>(i, r). year r = Some y) (race_results d) = []"
    by (simp add: count_race_year_def)
  then have "\<forall>x\<in>set (race_results d). \<not> (case x of (i, r) \<Rightarrow> year r = Some y)"
    by (simp add: filter_empty_conv)
  then show ?thesis
    by (intro filter_True) auto
qed

lemma replace_step_race:
  "race_results (if year_exists d y then delete_race_year y d else d)
     = filter (\<lambda>(i, r). year r \<noteq> Some y) (race_results d)"
  by (simp add: year_exists_def delete_race_year_def filter_other_years_id)

lemma replace_step_race_rest:
  "race_results_seq (if year_exists d y then delete_race_year y d else d) = race_results_seq d"
  "weather_data (if year_exists d y then delete_race_year y d else d) = weather_data d"
  "weather_data_seq (if year_exists d y then delete_race_year y d else d) = weather_data_seq d"
  by (simp_all add: delete_race_year_def)

lemma replace_fold_race:
  "race_results (fold (\<lambda>y d'. if year_exists d' y then delete_race_year y d' else d') ys d)
     = filter (\<lambda>(i, r). \<forall>y\<in>set ys. year r \<noteq> Some y) (race_results d)"
proof (induction ys arbitrary: d)
  case Nil
  then show ?case by simp
next
  case (Cons y ys)
  have "race_results (fold (\<lambda>y d'. if year_exists d' y then delete_race_year y d' else d')
                        (y # ys) d)
        = filter (\<lambda>(i, r). \<forall>y\<in>set ys. year r \<noteq> Some y)
            (filter (\<lambda>(i, r). year r \<noteq> Some y) (race_results d))"
    using Cons.IH [of "if year_exists d y then delete_race_year y d else d"]
    by (simp add: replace_step_race del: if_split cong: if_cong)
  also have "\<dots> = filter (\<lambda>(i, r). \<forall>y\<in>set (y # ys). year r \<noteq> Some y) (race_results d)"
    by (auto intro: filter_cong)
  finally show ?case .
qed

lemma replace_fold_race_weather:
  "weather_data (fold (\<lambda>y d'. if year_exists d' y then delete_race_year y d' else d') ys d)
     = weather_data d"
proof (induction ys arbitrary: d)
  case Nil
  then show ?case by simp
next
  case (Cons y ys)
  show ?case
    using Cons.IH [of "if year_exists d y then delete_race_year y d else d"]
    by (simp add: replace_step_race_rest del: if_split cong: if_cong)
qed

lemma set_years_to_replace:
  "set (years_to_replace ys) = {y. Some y \<in> set ys \<and> y \<noteq> 0}"
  by (auto simp: years_to_replace_def)

lemma deletion_phase_race:
  "race_results
     (if replace_existing \<and> batch \<noteq> [] then
        fold (\<lambda>y d'. if year_exists d' y then delete_race_year y d' else d')
             (years_to_replace (map year batch)) d
      else d)
   = (if replace_existing \<and> batch \<noteq> []
      then filter (\<lambda>(i, r). \<forall>y. year r = Some y \<longrightarrow> y = 0 \<or> Some y \<notin> set (map year batch))
             (race_results d)
      else race_results d)"
proof (cases "replace_existing \<and> batch \<noteq> []")
  case True
  have "filter (\<lambda>(i, r). \<forall>y\<in>set (years_to_replace (map year batch)). year r \<noteq> Some y)
          (race_results d)
        = filter (\<lambda>(i, r). \<forall>y. year r = Some y \<longrightarrow> y = 0 \<or> Some y \<notin> set (map year batch))
            (race_results d)"
    by (intro filter_cong) (auto simp: set_years_to_replace)
  with True show ?thesis
    by (simp add: replace_fold_race)
next
  case False
  then show ?thesis by auto
qed

lemma insert_race_results_shape:
  "\<exists>new. race_results (snd (insert_race_results batch replace_existing d))
            = (if replace_existing \<and> batch \<noteq> []
               then filter (\<lambda>(i, r). \<forall>y. year r = Some y \<longrightarrow>
                                          y = 0 \<or> Some y \<notin> set (map year batch))
                      (race_results d)
               else race_results d) @ new
         \<and> snd ` set new \<subseteq> stored_result ` set batch"
  unfolding insert_race_results_def
  using insert_race_rows_appends [of batch
      "if replace_existing \<and> batch \<noteq> [] then
         fold (\<lambda>y d'. if year_exists d' y then delete_race_year y d' else d')
              (years_to_replace (map year batch)) d
       else d"]
  by (simp only: deletion_phase_race)

lemma insert_race_results_weather:
  "weather_data (snd (insert_race_results batch replace_existing d)) = weather_data d"
  by (simp add: insert_race_results_def insert_race_rows_weather replace_fold_race_weather)

lemma map_snd_filter_year:
  "map snd (filter (\<lambda>(i, r). P r) xs) = filter P (map snd xs)"
  by (induction xs) auto

lemma insert_race_results_year_rows:
  assumes "\<forall>r\<in>set batch. year r \<noteq> None" and "y \<noteq> 0" and "Some y \<in> set (map year batch)"
  shows "fst (insert_race_results batch True d) = None"
    and "map snd (filter (\<lambda>(i, r). year r = Some y)
                    (race_results (snd (insert_race_results batch True d))))
         = map stored_result (filter (\<lambda>r. year r = Some y) batch)"
proof -
  let ?d1 = "if True \<and> batch \<noteq> [] then
               fold (\<lambda>y d'. if year_exists d' y then delete_race_year y d' else d')
                    (years_to_replace (map year batch)) d
             else d"
  from assms(3) have ne: "batch \<noteq> []" by auto
  have kept: "race_results ?d1
        = filter (\<lambda>(i, r). \<forall>y. year r = Some y \<longrightarrow> y = 0 \<or> Some y \<notin> set (map year batch))
            (race_results d)"
    using deletion_phase_race [of True batch d] ne by simp
  have none_left: "filter (\<lambda>r. year r = Some y) (map snd (race_results ?d1)) = []"
    unfolding kept using assms(2,3) by (auto simp: filter_empty_conv)
  from insert_race_rows_all [OF assms(1), of ?d1]
  have ok: "fst (insert_race_rows batch ?d1) = None"
    and rows: "map snd (race_results (snd (insert_race_rows batch ?d1)))
                 = map snd (race_results ?d1) @ map stored_result batch"
    by blast+
  show "fst (insert_race_results batch True d) = None"
    using ok by (simp add: insert_race_results_def)
  have "map snd (filter (\<lambda>(i, r). year r = Some y)
                   (race_results (snd (insert_race_results batch True d))))
        = filter (\<lambda>r. year r = Some y) (map snd (race_results ?d1) @ map stored_result batch)"
    using rows by (simp add: insert_race_results_def map_snd_filter_year)
  also have "\<dots> = filter (\<lambda>r. year r = Some y) (map stored_result batch)"
    using none_left by simp
  also have "\<dots> = map stored_result (filter (\<lambda>r. year r = Some y) batch)"
    by (simp add: filter_map comp_def)
  finally show "map snd (filter (\<lambda>(i, r). year r = Some y)
                    (race_results (snd (insert_race_results batch True d))))
         = map stored_result (filter (\<lambda>r. year r = Some y) batch)" .
qed

lemma insert_race_results_year_count:
  assumes "\<forall>r\<in>set batch. year r \<noteq> None" and "y \<noteq> 0" and "Some y \<in> set (map year batch)"
  shows "count_race_year (snd (insert_race_results batch True d)) y
         = length (filter (\<lambda>r. year r = Some y) batch)"
proof -
  have "count_race_year (snd (insert_race_results batch True d)) y
        = length (map snd (filter (\<lambda>(i, r). year r = Some y)
                    (race_results (snd (insert_race_results batch True d)))))"
    by (simp add: count_race_year_def)
  also have "\<dots> = length (map stored_result (filter (\<lambda>r. year r = Some y) batch))"
    using insert_race_results_year_rows(2) [OF assms] by simp
  finally show ?thesis by simp
qed

text \<open>
  Claim C3, as the code has it. Take a batch in which every row carries a year, and a
  year of the batch other than 0. Inserting the batch with \<open>replace_existing\<close> true
  raises nothing; afterwards the stored rows of that year are exactly the rows of the
  batch for that year, in order (every earlier row of the year is gone), so their number
  is the number of such rows in the batch, and inserting the same batch a second time
  leaves that number unchanged. (For the year 0 the rows are not deleted: see the
  counterexample.)
\<close>

theorem insert_race_results_replace:
  assumes "\<forall>r\<in>set batch. year r \<noteq> None" and "y \<noteq> 0" and "Some y \<in> set (map year batch)"
  shows "fst (insert_race_results batch True d) = None
   \<and> map snd (filter (\<lambda>(i, r). year r = Some y)
                 (race_results (snd (insert_race_results batch True d))))
       = map stored_result (filter (\<lambda>r. year r = Some y) batch)
   \<and> count_race_year (snd (insert_race_results batch True d)) y
       = length (filter (\<lambda>r. year r = Some y) batch)
   \<and> count_race_year
         (snd (insert_race_results batch True (snd (insert_race_results batch True d)))) y
       = count_race_year (snd (insert_race_results batch True d)) y"
  using insert_race_results_year_rows [OF assms, of d]
    insert_race_results_year_count [OF assms, of d]
    insert_race_results_year_count [OF assms, of "snd (insert_race_results batch True d)"]
  by simp

theorem insert_race_results_replace_witness:
  "list_all (\<lambda>r. year r \<noteq> None) [sample_result, sample_result\<lparr>place := Some 2\<rparr>]
   \<and> (2025::int) \<noteq> 0
   \<and> Some 2025 \<in> set (map year [sample_result, sample_result\<lparr>place := Some 2\<rparr>])
   \<and> count_race_year
        (snd (insert_race_results [sample_result, sample_result\<lparr>place := Some 2\<rparr>] True
               (snd (insert_race_results [sample_result] False empty_db)))) 2025 = 2
   \<and> count_race_year
        (snd (insert_race_results [sample_result, sample_result\<lparr>place := Some 2\<rparr>] True
          (snd (insert_race_results [sample_result, sample_result\<lparr>place := Some 2\<rparr>] True
                 (snd (insert_race_results [sample_result] False empty_db)))))) 2025 = 2"
proof -
  have h1: "\<forall>r\<in>set [sample_result, sample_result\<lparr>place := Some 2\<rparr>]. year r \<noteq> None"
    by (simp add: sample_result_def)
  have h2: "(2025::int) \<noteq> 0" by simp
  have h3: "Some 2025 \<in> set (map year [sample_result, sample_result\<lparr>place := Some 2\<rparr>])"
    by (simp add: sample_result_def)
  have len: "length (filter (\<lambda>r. year r = Some 2025)
                       [sample_result, sample_result\<lparr>place := Some 2\<rparr>]) = 2"
    by (simp add: sample_result_def)
  from insert_race_results_replace [OF h1 h2 h3,
        of "snd (insert_race_results [sample_result] False empty_db)"] len
  show ?thesis using h1 h2 h3 by (simp add: list_all_iff)
qed

text \<open>
  The claim C3 as stated fails for the year 0, which the truth test on the year drops
  from the years to replace: the same one-row batch of year 0, inserted twice with
  \<open>replace_existing\<close> true, is stored twice.
\<close>

theorem insert_race_results_year_zero:
  "count_race_year
     (snd (insert_race_results [sample_result\<lparr>year := Some 0\<rparr>] True empty_db)) 0 = 1
   \<and> count_race_year
       (snd (insert_race_results [sample_result\<lparr>year := Some 0\<rparr>] True
              (snd (insert_race_results [sample_result\<lparr>year := Some 0\<rparr>] True empty_db)))) 0
     = 2"
  by code_simp

text \<open>
  Claim C10. Inserting a batch of results, with \<open>replace_existing\<close> true or false,
  keeps every stored row whose year is not a year of the batch: the stored rows with
  such a year are the same before and after, in the same order, and the weather table
  is untouched. With \<open>replace_existing\<close> false nothing is deleted at all: the rows
  before are a prefix of the rows after.
\<close>

theorem insert_race_results_frame:
  "filter (\<lambda>(i, r). year r \<notin> set (map year batch))
     (race_results (snd (insert_race_results batch replace_existing d)))
     = filter (\<lambda>(i, r). year r \<notin> set (map year batch)) (race_results d)
   \<and> ((i, r) \<in> set (race_results d)
        \<and> (\<forall>y. year r = Some y \<longrightarrow> Some y \<notin> set (map year batch))
        \<longrightarrow> (i, r) \<in> set (race_results (snd (insert_race_results batch replace_existing d))))
   \<and> (\<exists>new. race_results (snd (insert_race_results batch False d)) = race_results d @ new)
   \<and> weather_data (snd (insert_race_results batch replace_existing d)) = weather_data d"
proof -
  let ?P = "\<lambda>(i, r). year r \<notin> set (map year batch)"
  let ?kept = "if replace_existing \<and> batch \<noteq> []
               then filter (\<lambda>(i, r). \<forall>y. year r = Some y \<longrightarrow>
                                          y = 0 \<or> Some y \<notin> set (map year batch))
                      (race_results d)
               else race_results d"
  from insert_race_results_shape [of batch replace_existing d] obtain new where
    shape: "race_results (snd (insert_race_results batch replace_existing d)) = ?kept @ new"
    and new: "snd ` set new \<subseteq> stored_result ` set batch"
    by blast
  have "\<forall>x\<in>set new. \<not> ?P x"
  proof
    fix x assume "x \<in> set new"
    with new obtain b where "b \<in> set batch" "snd x = stored_result b" by auto
    then have "year (snd x) \<in> set (map year batch)" by auto
    then show "\<not> ?P x" by (cases x) simp
  qed
  then have new_none: "filter ?P new = []"
    by (simp add: filter_empty_conv)
  have kept_same: "filter ?P ?kept = filter ?P (race_results d)"
    by (auto intro: filter_cong)
  have c1: "filter ?P (race_results (snd (insert_race_results batch replace_existing d)))
              = filter ?P (race_results d)"
    unfolding shape using new_none kept_same by simp
  have c2: "(i, r) \<in> set (race_results (snd (insert_race_results batch replace_existing d)))"
    if "(i, r) \<in> set (race_results d)"
      and "\<forall>y. year r = Some y \<longrightarrow> Some y \<notin> set (map year batch)"
  proof -
    from that have "(i, r) \<in> set ?kept" by auto
    then show ?thesis unfolding shape by simp
  qed
  have c3: "\<exists>new. race_results (snd (insert_race_results batch False d)) = race_results d @ new"
    using insert_race_results_shape [of batch False d] by auto
  show ?thesis
    using c1 c2 c3 insert_race_results_weather by blast
qed

theorem insert_race_results_frame_witness:
  "(1, sample_result\<lparr>year := Some 2024\<rparr>)
     \<in> set (race_results
              (snd (insert_race_results [sample_result\<lparr>year := Some 2024\<rparr>] False empty_db)))
   \<and> year (sample_result\<lparr>year := Some 2024\<rparr>) = Some 2024
   \<and> Some 2024 \<notin> set (map year [sample_result])
   \<and> (1, sample_result\<lparr>year := Some 2024\<rparr>)
     \<in> set (race_results
              (snd (insert_race_results [sample_result] True
                (snd (insert_race_results [sample_result\<lparr>year := Some 2024\<rparr>] False
                       empty_db)))))"
proof -
  have h1: "(1, sample_result\<lparr>year := Some 2024\<rparr>)
     \<in> set (race_results
              (snd (insert_race_results [sample_result\<lparr>year := Some 2024\<rparr>] False empty_db)))"
    by code_simp
  have h2: "\<forall>y. year (sample_result\<lparr>year := Some 2024\<rparr>) = Some y
          \<longrightarrow> Some y \<notin> set (map year [sample_result])"
    by (simp add: sample_result_def)
  from insert_race_results_frame [of "[sample_result]" True
         "snd (insert_race_results [sample_result\<lparr>year := Some 2024\<rparr>] False empty_db)"
         1 "sample_result\<lparr>year := Some 2024\<rparr>"] h1 h2
  have "(1, sample_result\<lparr>year := Some 2024\<rparr>)
     \<in> set (race_results
              (snd (insert_race_results [sample_result] True
                (snd (insert_race_results [sample_result\<lparr>year := Some 2024\<rparr>] False
                       empty_db)))))"
    by blast
  with h1 show ?thesis by (simp add: sample_result_def)
qed

subsection \<open>Replacing weather rows\<close>

text \<open>
  Claim C4 does not hold of the code. \<^const>\<open>insert_weather_data\<close> deletes the weather
  rows of a year only when \<^const>\<open>year_exists\<close> finds the year among the race results. On
  a database without race results for 2024, the same one-record weather batch inserted
  twice with \<open>replace_existing\<close> true is stored twice; once a race result of 2024 is
  stored, the second insertion replaces the first.
\<close>

theorem insert_weather_data_not_replaced:
  "count_weather_year
     (snd (insert_weather_data [sample_weather 2024] True empty_db)) 2024 = 1
   \<and> count_weather_year
       (snd (insert_weather_data [sample_weather 2024] True
              (snd (insert_weather_data [sample_weather 2024] True empty_db)))) 2024 = 2
   \<and> count_weather_year
       (snd (insert_weather_data [sample_weather 2024] True
              (snd (insert_weather_data [sample_weather 2024] True
                     (snd (insert_race_results [sample_result\<lparr>year := Some 2024\<rparr>] False
                            empty_db)))))) 2024 = 1"
  by code_simp

section \<open>Properties of the crawl\<close>

lemma scrape_pages_no_rows:
  assumes "parse_results_table soup yr = []"
  shows "scrape_pages site year_url yr rdate page_num soup all_results st reqs
         = (all_results, st, reqs)"
  using assms by (subst scrape_pages.simps) simp

lemma scrape_pages_no_link:
  assumes "page_num \<le> max_pages" and "parse_results_table soup yr \<noteq> []"
    and "''Next >'' \<notin> set (anchors soup)"
  shows "scrape_pages site year_url yr rdate page_num soup all_results st reqs
         = (all_results @ map (\<lambda>result. result\<lparr>race_date := rdate\<rparr>)
                            (parse_results_table soup yr), st, reqs)"
  using assms by (subst scrape_pages.simps) (simp add: Let_def)

lemma scrape_pages_next:
  assumes "page_num \<le> max_pages" and "parse_results_table soup yr \<noteq> []"
    and "''Next >'' \<in> set (anchors soup)"
    and "site (Post year_url (next_page_form soup)) st = (Inr soup', st')"
  shows "scrape_pages site year_url yr rdate page_num soup all_results st reqs
         = scrape_pages site year_url yr rdate (page_num + 1) soup'
             (all_results @ map (\<lambda>result. result\<lparr>race_date := rdate\<rparr>)
                                (parse_results_table soup yr))
             st' (reqs @ [Post year_url (next_page_form soup)])"
  using assms by (subst scrape_pages.simps) (simp add: Let_def)

lemma scrape_pages_final:
  assumes "page_num \<le> max_pages" and "''Next >'' \<notin> set (anchors soup)"
  shows "scrape_pages site year_url yr rdate page_num soup all_results st reqs
         = (all_results @ map (\<lambda>result. result\<lparr>race_date := rdate\<rparr>)
                            (parse_results_table soup yr), st, reqs)"
proof (cases "parse_results_table soup yr = []")
  case True
  then show ?thesis by (simp add: scrape_pages_no_rows)
next
  case False
  with assms show ?thesis by (simp add: scrape_pages_no_link)
qed

text \<open>
  Claim C5. Let the site answer the GET for the year with page 1, the POST of page 1's
  form with page 2 and the POST of page 2's form with page 3, where pages 1 and 2 each
  yield at least one row and carry the link \<^verbatim>\<open>Next >\<close>, and page 3 does not carry it. Then
  \<^const>\<open>scrape_year\<close> makes exactly these three requests and returns the rows of pages 1,
  2 and 3 in this order, each with the race date found on page 1. Moreover the loop
  stops without a further request at a page that yields no rows.
\<close>

theorem scrape_year_three_pages:
  assumes "site (Get (base_url @ ''&y='' @ show_int yr)) s0 = (Inr p1, s1)"
    and "site (Post (base_url @ ''&y='' @ show_int yr) (next_page_form p1)) s1 = (Inr p2, s2)"
    and "site (Post (base_url @ ''&y='' @ show_int yr) (next_page_form p2)) s2 = (Inr p3, s3)"
    and "parse_results_table p1 yr \<noteq> []" and "''Next >'' \<in> set (anchors p1)"
    and "parse_results_table p2 yr \<noteq> []" and "''Next >'' \<in> set (anchors p2)"
    and "''Next >'' \<notin> set (anchors p3)"
  shows "scrape_year get_race_date site base_url yr s0
         = (map (\<lambda>result. result\<lparr>race_date := get_race_date (page_text p1)\<rparr>)
              (parse_results_table p1 yr @ parse_results_table p2 yr
                 @ parse_results_table p3 yr),
            s3,
            [Get (base_url @ ''&y='' @ show_int yr),
             Post (base_url @ ''&y='' @ show_int yr) (next_page_form p1),
             Post (base_url @ ''&y='' @ show_int yr) (next_page_form p2)])
       \<and> (\<forall>soup year_url rdate page_num all_results st reqs.
             parse_results_table soup yr = [] \<longrightarrow>
             scrape_pages site year_url yr rdate page_num soup all_results st reqs
               = (all_results, st, reqs))"
proof -
  let ?url = "base_url @ ''&y='' @ show_int yr"
  let ?d = "get_race_date (page_text p1)"
  let ?tag = "map (\<lambda>result. result\<lparr>race_date := ?d\<rparr>)"
  have "scrape_year get_race_date site base_url yr s0
        = scrape_pages site ?url yr ?d (Suc 0) p1 [] s1 [Get ?url]"
    using assms(1) by (simp add: scrape_year_def Let_def)
  also have "\<dots> = scrape_pages site ?url yr ?d (Suc (Suc 0)) p2 (?tag (parse_results_table p1 yr)) s2
                     [Get ?url, Post ?url (next_page_form p1)]"
    using scrape_pages_next [of "Suc 0" p1 yr site ?url s1 p2 s2 ?d "[]" "[Get ?url]"] assms(2,4,5)
    by (simp add: max_pages_def)
  also have "\<dots> = scrape_pages site ?url yr ?d (Suc (Suc (Suc 0))) p3
                     (?tag (parse_results_table p1 yr) @ ?tag (parse_results_table p2 yr)) s3
                     [Get ?url, Post ?url (next_page_form p1), Post ?url (next_page_form p2)]"
    using scrape_pages_next [of "Suc (Suc 0)" p2 yr site ?url s2 p3 s3 ?d
        "?tag (parse_results_table p1 yr)" "[Get ?url, Post ?url (next_page_form p1)]"]
      assms(3,6,7)
    by (simp add: max_pages_def)
  also have "\<dots> = (?tag (parse_results_table p1 yr) @ ?tag (parse_results_table p2 yr)
                        @ ?tag (parse_results_table p3 yr), s3,
                     [Get ?url, Post ?url (next_page_form p1), Post ?url (next_page_form p2)])"
    using scrape_pages_final [of "Suc (Suc (Suc 0))" p3 site ?url yr ?d] assms(8)
    by (simp add: max_pages_def)
  finally show ?thesis
    by (simp add: scrape_pages_no_rows)
qed

theorem scrape_year_three_pages_witness:
  "sample_site (Get (''Results.aspx?id=11068'' @ ''&y='' @ show_int 2025)) 0
     = (Inr (sample_page [sample_cells ''1'' ''00:45:00.0''] [''Next >'']), 1)
   \<and> parse_results_table (sample_page [sample_cells ''1'' ''00:45:00.0''] [''Next >'']) 2025 \<noteq> []
   \<and> ''Next >'' \<in> set (anchors (sample_page [sample_cells ''1'' ''00:45:00.0''] [''Next >'']))
   \<and> ''Next >'' \<notin> set (anchors (sample_page [sample_cells ''3'' ''00:47:00.0''] [''< Prev'']))
   \<and> map place
         (fst (scrape_year (\<lambda>t. Some (Date 2025 10 5)) sample_site ''Results.aspx?id=11068''
                 2025 0))
       = [Some 1, Some 2, Some 3]
   \<and> map race_date
         (fst (scrape_year (\<lambda>t. Some (Date 2025 10 5)) sample_site ''Results.aspx?id=11068''
                 2025 0))
       = [Some (Date 2025 10 5), Some (Date 2025 10 5), Some (Date 2025 10 5)]
   \<and> length
         (snd (snd (scrape_year (\<lambda>t. Some (Date 2025 10 5)) sample_site
                      ''Results.aspx?id=11068'' 2025 0)))
       = 3
   \<and> parse_results_table (sample_page [] [''Next >'']) 2025 = []
   \<and> scrape_pages sample_site ''Results.aspx?id=11068&y=2025'' 2025 None 4
         (sample_page [] [''Next >'']) [sample_result] 3 []
       = ([sample_result], 3, [])"
proof -
  let ?p1 = "sample_page [sample_cells ''1'' ''00:45:00.0''] [''Next >'']"
  let ?p2 = "sample_page [sample_cells ''2'' ''00:46:00.0''] [''< Prev'', ''Next >'']"
  let ?p3 = "sample_page [sample_cells ''3'' ''00:47:00.0''] [''< Prev'']"
  let ?url = "''Results.aspx?id=11068'' @ ''&y='' @ show_int 2025"
  have g: "sample_site (Get ?url) 0 = (Inr ?p1, 1)"
    by (simp add: sample_site_def)
  have po1: "sample_site (Post ?url (next_page_form ?p1)) 1 = (Inr ?p2, 2)"
    by (simp add: sample_site_def)
  have po2: "sample_site (Post ?url (next_page_form ?p2)) 2 = (Inr ?p3, 3)"
    by (simp add: sample_site_def)
  have r1: "map place (parse_results_table ?p1 2025) = [Some 1]" by code_simp
  have r2: "map place (parse_results_table ?p2 2025) = [Some 2]" by code_simp
  have r3: "map place (parse_results_table ?p3 2025) = [Some 3]" by code_simp
  have n1: "parse_results_table ?p1 2025 \<noteq> []" using r1 by auto
  have n2: "parse_results_table ?p2 2025 \<noteq> []" using r2 by auto
  have l1: "''Next >'' \<in> set (anchors ?p1)" by (simp add: sample_page_def)
  have l2: "''Next >'' \<in> set (anchors ?p2)" by (simp add: sample_page_def)
  have l3: "''Next >'' \<notin> set (anchors ?p3)" by (simp add: sample_page_def)
  from scrape_year_three_pages [of sample_site "''Results.aspx?id=11068''" 2025 0 ?p1 1 ?p2 2
         ?p3 3 "\<lambda>t. Some (Date 2025 10 5)", OF g po1 po2 n1 l1 n2 l2 l3]
  have run: "scrape_year (\<lambda>t. Some (Date 2025 10 5)) sample_site ''Results.aspx?id=11068''
                 2025 0
         = (map (\<lambda>result. result\<lparr>race_date := Some (Date 2025 10 5)\<rparr>)
              (parse_results_table ?p1 2025 @ parse_results_table ?p2 2025
                 @ parse_results_table ?p3 2025),
            3,
            [Get ?url, Post ?url (next_page_form ?p1), Post ?url (next_page_form ?p2)])"
    by blast
  have places: "map place
         (fst (scrape_year (\<lambda>t. Some (Date 2025 10 5)) sample_site ''Results.aspx?id=11068''
                 2025 0)) = [Some 1, Some 2, Some 3]"
    unfolding run using r1 r2 r3 by (simp add: comp_def)
  have c1: "length (parse_results_table ?p1 2025) = 1"
    using arg_cong [OF r1, of length] by simp
  have c2: "length (parse_results_table ?p2 2025) = 1"
    using arg_cong [OF r2, of length] by simp
  have c3: "length (parse_results_table ?p3 2025) = 1"
    using arg_cong [OF r3, of length] by simp
  have dates: "map race_date
         (fst (scrape_year (\<lambda>t. Some (Date 2025 10 5)) sample_site ''Results.aspx?id=11068''
                 2025 0))
       = [Some (Date 2025 10 5), Some (Date 2025 10 5), Some (Date 2025 10 5)]"
    unfolding run by (simp add: comp_def map_replicate_const c1 c2 c3)
  have reqs: "length
         (snd (snd (scrape_year (\<lambda>t. Some (Date 2025 10 5)) sample_site
                      ''Results.aspx?id=11068'' 2025 0))) = 3"
    unfolding run by simp
  have empty: "parse_results_table (sample_page [] [''Next >'']) 2025 = []"
    by code_simp
  from scrape_year_three_pages [of sample_site "''Results.aspx?id=11068''" 2025 0 ?p1 1 ?p2 2
         ?p3 3 "\<lambda>t. Some (Date 2025 10 5)", OF g po1 po2 n1 l1 n2 l2 l3] empty
  have stop: "scrape_pages sample_site ''Results.aspx?id=11068&y=2025'' 2025 None 4
         (sample_page [] [''Next >'']) [sample_result] 3 []
       = ([sample_result], 3, [])"
    by blast
  show ?thesis
    using g n1 l1 l3 places dates reqs empty stop by simp
qed

section \<open>Properties of the weather window\<close>

lemma value_at_eq: "value_at xs i = Inr (if i < length xs then xs ! i else None)"
  by (simp add: value_at_def py_index_def)

lemma window_record_eq:
  "window_record fromisoformat hdata i t =
     (case fromisoformat t of
        None \<Rightarrow> Inl ValueError
      | Some ts \<Rightarrow>
          Inr (if RACE_START_HOUR \<le> hour ts \<and> hour ts \<le> RACE_END_HOUR
               then Some \<lparr> w_year = None, w_race_date = None, timestamp = ts, location = None,
                           temperature_2m =
                             (if i < length (get_or_empty (hourly_temperature hdata))
                              then get_or_empty (hourly_temperature hdata) ! i else None),
                           windspeed_10m =
                             (if i < length (get_or_empty (hourly_windspeed hdata))
                              then get_or_empty (hourly_windspeed hdata) ! i else None),
                           winddirection_10m =
                             (if i < length (get_or_empty (hourly_winddirection hdata))
                              then get_or_empty (hourly_winddirection hdata) ! i else None),
                           wind_gusts_10m =
                             (if i < length (get_or_empty (hourly_wind_gusts hdata))
                              then get_or_empty (hourly_wind_gusts hdata) ! i else None) \<rparr>
               else None))"
  by (simp add: window_record_def value_at_eq split: option.splits)

lemma window_record_not_index_error:
  "window_record fromisoformat hdata i t \<noteq> Inl IndexError"
  by (simp add: window_record_eq split: option.splits)

lemma window_loop_not_index_error:
  "window_loop fromisoformat hdata i ts \<noteq> Inl IndexError"
proof (induction ts arbitrary: i)
  case Nil
  then show ?case by simp
next
  case (Cons t ts)
  show ?case
    using window_record_not_index_error [of fromisoformat hdata i t] Cons.IH [of "Suc i"]
    by (auto split: sum.splits)
qed

lemma window_loop_eq:
  assumes "\<forall>t\<in>set ts. fromisoformat t \<noteq> None"
  shows "window_loop fromisoformat hdata i ts =
     Inr [\<lparr> w_year = None, w_race_date = None, timestamp = the (fromisoformat t),
             location = None,
             temperature_2m =
               (if j < length (get_or_empty (hourly_temperature hdata))
                then get_or_empty (hourly_temperature hdata) ! j else None),
             windspeed_10m =
               (if j < length (get_or_empty (hourly_windspeed hdata))
                then get_or_empty (hourly_windspeed hdata) ! j else None),
             winddirection_10m =
               (if j < length (get_or_empty (hourly_winddirection hdata))
                then get_or_empty (hourly_winddirection hdata) ! j else None),
             wind_gusts_10m =
               (if j < length (get_or_empty (hourly_wind_gusts hdata))
                then get_or_empty (hourly_wind_gusts hdata) ! j else None) \<rparr>.
          (j, t) \<leftarrow> enumerate i ts,
          RACE_START_HOUR \<le> hour (the (fromisoformat t))
            \<and> hour (the (fromisoformat t)) \<le> RACE_END_HOUR]"
  using assms
proof (induction ts arbitrary: i)
  case Nil
  then show ?case by simp
next
  case (Cons t ts)
  from Cons.prems obtain dt where dt: "fromisoformat t = Some dt" by auto
  from Cons.prems have rest: "\<forall>t\<in>set ts. fromisoformat t \<noteq> None" by simp
  show ?case
    using dt Cons.IH [OF rest, of "Suc i"]
    by (simp add: window_record_eq)
qed

text \<open>
  Claim C9. \<^const>\<open>extract_race_window_data\<close> never raises IndexError, whatever the
  lengths of the variable arrays. When every timestamp can be read, it returns one
  record for each timestamp, in the order of \<^verbatim>\<open>enumerate\<close>, whose hour lies in the race
  window; a field of the record holds the entry of its array at the index of the
  timestamp, and \<^verbatim>\<open>None\<close> when the array is too short to have that index.
\<close>

theorem extract_race_window_data_short_arrays:
  "extract_race_window_data fromisoformat hourly rdate yr \<noteq> Inl IndexError
   \<and> ((\<forall>t\<in>set (get_or_empty (time hdata)). fromisoformat t \<noteq> None) \<longrightarrow>
        extract_race_window_data fromisoformat (Some hdata) rdate yr =
          Inr [\<lparr> w_year = None, w_race_date = None, timestamp = the (fromisoformat t),
                  location = None,
                  temperature_2m =
                    (if j < length (get_or_empty (hourly_temperature hdata))
                     then get_or_empty (hourly_temperature hdata) ! j else None),
                  windspeed_10m =
                    (if j < length (get_or_empty (hourly_windspeed hdata))
                     then get_or_empty (hourly_windspeed hdata) ! j else None),
                  winddirection_10m =
                    (if j < length (get_or_empty (hourly_winddirection hdata))
                     then get_or_empty (hourly_winddirection hdata) ! j else None),
                  wind_gusts_10m =
                    (if j < length (get_or_empty (hourly_wind_gusts hdata))
                     then get_or_empty (hourly_wind_gusts hdata) ! j else None) \<rparr>.
               (j, t) \<leftarrow> enumerate 0 (get_or_empty (time hdata)),
               RACE_START_HOUR \<le> hour (the (fromisoformat t))
                 \<and> hour (the (fromisoformat t)) \<le> RACE_END_HOUR])"
proof -
  have "extract_race_window_data fromisoformat hourly rdate yr \<noteq> Inl IndexError"
    by (simp add: extract_race_window_data_def window_loop_not_index_error
             split: option.splits)
  then show ?thesis
    using window_loop_eq [of "get_or_empty (time hdata)" fromisoformat hdata 0]
    by (simp add: extract_race_window_data_def)
qed

lemma iso_minute_day_times:
  "iso_minute ''2025-10-05T00:00''
     = Some \<lparr> dt_date = Date 2025 10 5, hour = 0, minute = 0, second = 0 \<rparr>"
  "iso_minute ''2025-10-05T01:00''
     = Some \<lparr> dt_date = Date 2025 10 5, hour = 1, minute = 0, second = 0 \<rparr>"
  "iso_minute ''2025-10-05T02:00''
     = Some \<lparr> dt_date = Date 2025 10 5, hour = 2, minute = 0, second = 0 \<rparr>"
  "iso_minute ''2025-10-05T03:00''
     = Some \<lparr> dt_date = Date 2025 10 5, hour = 3, minute = 0, second = 0 \<rparr>"
  "iso_minute ''2025-10-05T04:00''
     = Some \<lparr> dt_date = Date 2025 10 5, hour = 4, minute = 0, second = 0 \<rparr>"
  "iso_minute ''2025-10-05T05:00''
     = Some \<lparr> dt_date = Date 2025 10 5, hour = 5, minute = 0, second = 0 \<rparr>"
  "iso_minute ''2025-10-05T06:00''
     = Some \<lparr> dt_date = Date 2025 10 5, hour = 6, minute = 0, second = 0 \<rparr>"
  "iso_minute ''2025-10-05T07:00''
     = Some \<lparr> dt_date = Date 2025 10 5, hour = 7, minute = 0, second = 0 \<rparr>"
  "iso_minute ''2025-10-05T08:00''
     = Some \<lparr> dt_date = Date 2025 10 5, hour = 8, minute = 0, second = 0 \<rparr>"
  "iso_minute ''2025-10-05T09:00''
     = Some \<lparr> dt_date = Date 2025 10 5, hour = 9, minute = 0, second = 0 \<rparr>"
  "iso_minute ''2025-10-05T10:00''
     = Some \<lparr> dt_date = Date 2025 10 5, hour = 10, minute = 0, second = 0 \<rparr>"
  "iso_minute ''2025-10-05T11:00''
     = Some \<lparr> dt_date = Date 2025 10 5, hour = 11, minute = 0, second = 0 \<rparr>"
  "iso_minute ''2025-10-05T12:00''
     = Some \<lparr> dt_date = Date 2025 10 5, hour = 12, minute = 0, second = 0 \<rparr>"
  "iso_minute ''2025-10-05T13:00''
     = Some \<lparr> dt_date = Date 2025 10 5, hour = 13, minute = 0, second = 0 \<rparr>"
  "iso_minute ''2025-10-05T14:00''
     = Some \<lparr> dt_date = Date 2025 10 5, hour = 14, minute = 0, second = 0 \<rparr>"
  "iso_minute ''2025-10-05T15:00''
     = Some \<lparr> dt_date = Date 2025 10 5, hour = 15, minute = 0, second = 0 \<rparr>"
  "iso_minute ''2025-10-05T16:00''
     = Some \<lparr> dt_date = Date 2025 10 5, hour = 16, minute = 0, second = 0 \<rparr>"
  "iso_minute ''2025-10-05T17:00''
     = Some \<lparr> dt_date = Date 2025 10 5, hour = 17, minute = 0, second = 0 \<rparr>"
  "iso_minute ''2025-10-05T18:00''
     = Some \<lparr> dt_date = Date 2025 10 5, hour = 18, minute = 0, second = 0 \<rparr>"
  "iso_minute ''2025-10-05T19:00''
     = Some \<lparr> dt_date = Date 2025 10 5, hour = 19, minute = 0, second = 0 \<rparr>"
  "iso_minute ''2025-10-05T20:00''
     = Some \<lparr> dt_date = Date 2025 10 5, hour = 20, minute = 0, second = 0 \<rparr>"
  "iso_minute ''2025-10-05T21:00''
     = Some \<lparr> dt_date = Date 2025 10 5, hour = 21, minute = 0, second = 0 \<rparr>"
  "iso_minute ''2025-10-05T22:00''
     = Some \<lparr> dt_date = Date 2025 10 5, hour = 22, minute = 0, second = 0 \<rparr>"
  "iso_minute ''2025-10-05T23:00''
     = Some \<lparr> dt_date = Date 2025 10 5, hour = 23, minute = 0, second = 0 \<rparr>"
  by (simp_all add: is_digit_def two_digits_def digit_val_def digits_to_nat_def
                    days_in_month_def)

theorem extract_race_window_data_short_arrays_witness:
  "list_all (\<lambda>t. iso_minute t \<noteq> None)
     (get_or_empty (time (sample_hourly
        [''2025-10-05T06:00'', ''2025-10-05T07:00'', ''2025-10-05T08:00'', ''2025-10-05T12:00'']
        [Some 55, Some 57])))
   \<and> (\<exists>rs. extract_race_window_data iso_minute
              (Some (sample_hourly
                 [''2025-10-05T06:00'', ''2025-10-05T07:00'', ''2025-10-05T08:00'',
                  ''2025-10-05T12:00'']
                 [Some 55, Some 57]))
              (Date 2025 10 5) 2025 = Inr rs
          \<and> map (\<lambda>r. hour (timestamp r)) rs = [7, 8]
          \<and> map temperature_2m rs = [Some 57, None]
          \<and> map windspeed_10m rs = [Some 5, Some 5]
          \<and> map wind_gusts_10m rs = [None, None])"
proof -
  let ?h = "sample_hourly
        [''2025-10-05T06:00'', ''2025-10-05T07:00'', ''2025-10-05T08:00'', ''2025-10-05T12:00'']
        [Some 55, Some 57]"
  have h: "\<forall>t\<in>set (get_or_empty (time ?h)). iso_minute t \<noteq> None"
    by (simp add: sample_hourly_def get_or_empty_def iso_minute_day_times
             del: iso_minute.simps)
  from extract_race_window_data_short_arrays
         [of iso_minute "Some ?h" "Date 2025 10 5" 2025 ?h] h
  have "extract_race_window_data iso_minute (Some ?h) (Date 2025 10 5) 2025
        = Inr [\<lparr> w_year = None, w_race_date = None,
                  timestamp = \<lparr> dt_date = Date 2025 10 5, hour = 7, minute = 0, second = 0 \<rparr>,
                  location = None, temperature_2m = Some 57, windspeed_10m = Some 5,
                  winddirection_10m = Some 270, wind_gusts_10m = None \<rparr>,
               \<lparr> w_year = None, w_race_date = None,
                  timestamp = \<lparr> dt_date = Date 2025 10 5, hour = 8, minute = 0, second = 0 \<rparr>,
                  location = None, temperature_2m = None, windspeed_10m = Some 5,
                  winddirection_10m = Some 270, wind_gusts_10m = None \<rparr>]"
    by (simp add: sample_hourly_def get_or_empty_def iso_minute_day_times
                  RACE_START_HOUR_def RACE_END_HOUR_def enumerate_eq_zip upt_rec
             del: iso_minute.simps)
  with h show ?thesis by (simp add: list_all_iff)
qed

text \<open>
  Claim C6. Let the location be one of the two sites, let the provider answer with an
  hourly block whose timestamps can all be read, and let the race date be a date or a
  readable date string. Then \<^const>\<open>fetch_weather_for_race\<close> returns exactly one record for
  each timestamp whose hour of the day lies in
  \<open>[\<close>\<^const>\<open>RACE_START_HOUR\<close>\<open>, \<close>\<^const>\<open>RACE_END_HOUR\<close>\<open>]\<close>, in the order of the
  timestamps, each with the given year, the race date and the location. For the 24
  hourly timestamps of one day these are the five records of the hours 7, 8, 9, 10, 11.
\<close>

theorem fetch_weather_for_race_window:
  assumes "locations location_name = Some (lat, lon)"
    and "(case rdate_arg of
            DateObj d \<Rightarrow> Some d
          | DateStr s \<Rightarrow> map_option dt_date (fromisoformat s)) = Some rdate"
    and "api lat lon rdate = Inr (Some hdata)"
    and "\<forall>t\<in>set (get_or_empty (time hdata)). fromisoformat t \<noteq> None"
  shows "fetch_weather_for_race fromisoformat api yr rdate_arg location_name =
          Inr [\<lparr> w_year = Some yr, w_race_date = Some rdate,
                  timestamp = the (fromisoformat t), location = Some location_name,
                  temperature_2m =
                    (if j < length (get_or_empty (hourly_temperature hdata))
                     then get_or_empty (hourly_temperature hdata) ! j else None),
                  windspeed_10m =
                    (if j < length (get_or_empty (hourly_windspeed hdata))
                     then get_or_empty (hourly_windspeed hdata) ! j else None),
                  winddirection_10m =
                    (if j < length (get_or_empty (hourly_winddirection hdata))
                     then get_or_empty (hourly_winddirection hdata) ! j else None),
                  wind_gusts_10m =
                    (if j < length (get_or_empty (hourly_wind_gusts hdata))
                     then get_or_empty (hourly_wind_gusts hdata) ! j else None) \<rparr>.
               (j, t) \<leftarrow> enumerate 0 (get_or_empty (time hdata)),
               RACE_START_HOUR \<le> hour (the (fromisoformat t))
                 \<and> hour (the (fromisoformat t)) \<le> RACE_END_HOUR]
       \<and> (\<exists>rs. fetch_weather_for_race iso_minute
                   (\<lambda>lat lon d. Inr (Some (sample_hourly day_times []))) 2025
                   (DateObj (Date 2025 10 5)) ''summit'' = Inr rs
              \<and> map (\<lambda>r. (hour (timestamp r), location r, w_year r, w_race_date r)) rs
                 = [(7, Some ''summit'', Some 2025, Some (Date 2025 10 5)),
                    (8, Some ''summit'', Some 2025, Some (Date 2025 10 5)),
                    (9, Some ''summit'', Some 2025, Some (Date 2025 10 5)),
                    (10, Some ''summit'', Some 2025, Some (Date 2025 10 5)),
                    (11, Some ''summit'', Some 2025, Some (Date 2025 10 5))])"
proof -
  have general: "fetch_weather_for_race fromisoformat api yr rdate_arg location_name =
          Inr [\<lparr> w_year = Some yr, w_race_date = Some rdate,
                  timestamp = the (fromisoformat t), location = Some location_name,
                  temperature_2m =
                    (if j < length (get_or_empty (hourly_temperature hdata))
                     then get_or_empty (hourly_temperature hdata) ! j else None),
                  windspeed_10m =
                    (if j < length (get_or_empty (hourly_windspeed hdata))
                     then get_or_empty (hourly_windspeed hdata) ! j else None),
                  winddirection_10m =
                    (if j < length (get_or_empty (hourly_winddirection hdata))
                     then get_or_empty (hourly_winddirection hdata) ! j else None),
                  wind_gusts_10m =
                    (if j < length (get_or_empty (hourly_wind_gusts hdata))
                     then get_or_empty (hourly_wind_gusts hdata) ! j else None) \<rparr>.
               (j, t) \<leftarrow> enumerate 0 (get_or_empty (time hdata)),
               RACE_START_HOUR \<le> hour (the (fromisoformat t))
                 \<and> hour (the (fromisoformat t)) \<le> RACE_END_HOUR]"
    using assms(1,2,3) window_loop_eq [OF assms(4), of hdata 0]
    by (simp add: fetch_weather_for_race_def fetch_weather_for_date_def
                  extract_race_window_data_def map_concat comp_def split_def
                  if_distrib [of "map _"]
             cong: if_cong)
  have example: "fetch_weather_for_race iso_minute
                   (\<lambda>lat lon d. Inr (Some (sample_hourly day_times []))) 2025
                   (DateObj (Date 2025 10 5)) ''summit''
        = Inr (map (\<lambda>h. \<lparr> w_year = Some 2025, w_race_date = Some (Date 2025 10 5),
                            timestamp = \<lparr> dt_date = Date 2025 10 5, hour = h, minute = 0,
                                          second = 0 \<rparr>,
                            location = Some ''summit'', temperature_2m = None,
                            windspeed_10m = Some 5, winddirection_10m = Some 270,
                            wind_gusts_10m = None \<rparr>)
                   [7, 8, 9, 10, 11])"
    by (simp add: fetch_weather_for_race_def fetch_weather_for_date_def locations_def
                  extract_race_window_data_def sample_hourly_def day_times_def
                  get_or_empty_def window_record_eq iso_minute_day_times
                  RACE_START_HOUR_def RACE_END_HOUR_def
             del: iso_minute.simps)
  show ?thesis
    using general example by simp
qed

theorem fetch_weather_for_race_window_witness:
  "locations ''start'' = Some (37.885, - 122.059)
   \<and> map_option dt_date (iso_minute ''2025-10-05T00:00'') = Some (Date 2025 10 5)
   \<and> list_all (\<lambda>t. iso_minute t \<noteq> None)
         (get_or_empty (time (sample_hourly
            [''2025-10-05T06:00'', ''2025-10-05T07:00'', ''2025-10-05T08:00'',
             ''2025-10-05T12:00'']
            [Some 55, Some 57])))
   \<and> fetch_weather_for_race iso_minute
         (\<lambda>lat lon d. Inr (Some (sample_hourly
             [''2025-10-05T06:00'', ''2025-10-05T07:00'', ''2025-10-05T08:00'',
              ''2025-10-05T12:00'']
             [Some 55, Some 57])))
         2025 (DateStr ''2025-10-05T00:00'') ''start''
       = Inr [\<lparr> w_year = Some 2025, w_race_date = Some (Date 2025 10 5),
                 timestamp = \<lparr> dt_date = Date 2025 10 5, hour = 7, minute = 0, second = 0 \<rparr>,
                 location = Some ''start'', temperature_2m = Some 57, windspeed_10m = Some 5,
                 winddirection_10m = Some 270, wind_gusts_10m = None \<rparr>,
              \<lparr> w_year = Some 2025, w_race_date = Some (Date 2025 10 5),
                 timestamp = \<lparr> dt_date = Date 2025 10 5, hour = 8, minute = 0, second = 0 \<rparr>,
                 location = Some ''start'', temperature_2m = None, windspeed_10m = Some 5,
                 winddirection_10m = Some 270, wind_gusts_10m = None \<rparr>]"
proof -
  let ?h = "sample_hourly
        [''2025-10-05T06:00'', ''2025-10-05T07:00'', ''2025-10-05T08:00'', ''2025-10-05T12:00'']
        [Some 55, Some 57]"
  let ?api = "\<lambda>(lat::real) (lon::real) (d::date). (Inr (Some ?h) :: exn + hourly_data option)"
  have loc: "locations ''start'' = Some (37.885, - 122.059)"
    by (simp add: locations_def)
  have dstr: "(case DateStr ''2025-10-05T00:00'' of
                 DateObj d \<Rightarrow> Some d
               | DateStr s \<Rightarrow> map_option dt_date (iso_minute s)) = Some (Date 2025 10 5)"
    by (simp add: iso_minute_day_times del: iso_minute.simps)
  have api: "?api 37.885 (- 122.059) (Date 2025 10 5) = Inr (Some ?h)"
    by simp
  have ts: "\<forall>t\<in>set (get_or_empty (time ?h)). iso_minute t \<noteq> None"
    by (simp add: sample_hourly_def get_or_empty_def iso_minute_day_times
             del: iso_minute.simps)
  from fetch_weather_for_race_window [where location_name = "''start''" and lat = "37.885"
         and lon = "- 122.059" and rdate_arg = "DateStr ''2025-10-05T00:00''"
         and fromisoformat = iso_minute and rdate = "Date 2025 10 5" and api = ?api
         and hdata = ?h and yr = 2025] loc dstr api ts
  have "fetch_weather_for_race iso_minute ?api 2025 (DateStr ''2025-10-05T00:00'') ''start''
       = Inr [\<lparr> w_year = Some 2025, w_race_date = Some (Date 2025 10 5),
                 timestamp = \<lparr> dt_date = Date 2025 10 5, hour = 7, minute = 0, second = 0 \<rparr>,
                 location = Some ''start'', temperature_2m = Some 57, windspeed_10m = Some 5,
                 winddirection_10m = Some 270, wind_gusts_10m = None \<rparr>,
              \<lparr> w_year = Some 2025, w_race_date = Some (Date 2025 10 5),
                 timestamp = \<lparr> dt_date = Date 2025 10 5, hour = 8, minute = 0, second = 0 \<rparr>,
                 location = Some ''start'', temperature_2m = None, windspeed_10m = Some 5,
                 winddirection_10m = Some 270, wind_gusts_10m = None \<rparr>]"
    by (simp add: sample_hourly_def get_or_empty_def iso_minute_day_times
                  RACE_START_HOUR_def RACE_END_HOUR_def enumerate_eq_zip upt_rec
             del: iso_minute.simps)
  with loc dstr ts show ?thesis by (simp add: list_all_iff)
qed

section \<open>Properties of the percentiles\<close>

lemma percentile_loop_single:
  assumes "chip_times \<noteq> []" and "0 \<le> p"
  shows "percentile_loop chip_times [p] result =
           Inr (AList.update (''p'' @ show_int p)
                  (chip_times ! min (nat (int (length chip_times) * p div 100))
                                    (length chip_times - 1))
                  result)"
proof -
  let ?n = "int (length chip_times)"
  let ?idx = "?n * p div 100"
  from assms(1) have n: "0 < ?n" by simp
  from assms(2) have nonneg: "0 \<le> ?n * p" by simp
  then have idx0: "0 \<le> ?idx" by (simp add: pos_imp_zdiv_nonneg_iff)
  have q: "int_of_quotient (?n * p) 100 = ?idx"
    using nonneg by (simp add: int_of_quotient_def)
  show ?thesis
  proof (cases "?idx \<ge> ?n")
    case True
    then have "min (nat ?idx) (length chip_times - 1) = length chip_times - 1"
      using n by auto
    moreover have "nat (?n - 1) = length chip_times - 1" by simp
    ultimately show ?thesis
      using True n q by (simp add: py_index_def Let_def)
  next
    case False
    then have "min (nat ?idx) (length chip_times - 1) = nat ?idx"
      using idx0 by auto
    then show ?thesis
      using False idx0 q by (simp add: py_index_def Let_def)
  qed
qed

lemma sort_key_all_same:
  assumes "\<forall>v\<in>set vs. v = c" and "i < length vs"
  shows "sort_key f vs ! i = c"
proof -
  have "sort_key f vs ! i \<in> set (sort_key f vs)"
    using assms(2) by (intro nth_mem) simp
  then show ?thesis using assms(1) by simp
qed

lemma quantile_all_same:
  assumes "vs \<noteq> []" and "\<forall>v\<in>set vs. v = Fin c" and "0 \<le> q" and "q \<le> 1"
  shows "quantile q vs = Inr (Fin c)"
proof -
  let ?n = "length vs"
  let ?h = "q * real (?n - 1)"
  let ?lo = "nat \<lfloor>?h\<rfloor>"
  let ?hi = "min (?lo + 1) (?n - 1)"
  from assms(1) have n: "0 < ?n" by simp
  have "?h \<le> real (?n - 1)"
    using assms(3,4) by (simp add: mult_left_le_one_le)
  then have "\<lfloor>?h\<rfloor> \<le> int (?n - 1)"
    by (simp add: floor_le_iff)
  then have lo: "?lo < ?n" using n by linarith
  have "?hi \<le> ?n - 1" by simp
  then have hi: "?hi < ?n" using n by linarith
  have a: "sort_key float_key vs ! ?lo = Fin c"
    using sort_key_all_same [OF assms(2) lo] .
  have b: "sort_key float_key vs ! ?hi = Fin c"
    using sort_key_all_same [OF assms(2) hi] .
  show ?thesis
    using assms(1,3,4) a b by (simp add: quantile_def Let_def float_sub_def)
qed

lemma percentile_names:
  "show_int 25 = ''25''" "show_int 50 = ''50''" "show_int 75 = ''75''"
  by code_simp+

lemma float_key_Fin_le: "float_key (Fin x) \<le> float_key (Fin y) \<longleftrightarrow> x \<le> y"
  by (auto simp: float_key_def less_eq_prod_def)

lemma insort_key_Fin:
  "insort_key float_key (Fin x) (map Fin ys) = map Fin (insort x ys)"
  by (induction ys) (auto simp: float_key_Fin_le)

lemma sort_key_Fin: "sort_key float_key (map Fin xs) = map Fin (sort xs)"
  by (induction xs) (auto simp: insort_key_Fin)

lemma quantile_finite:
  assumes "ts \<noteq> []" and "0 \<le> q" and "q \<le> 1"
  shows "quantile q (map Fin ts) = Inr (Fin (interpolated_quantile q ts))"
proof -
  let ?n = "length ts"
  let ?h = "q * real (?n - 1)"
  let ?lo = "nat \<lfloor>?h\<rfloor>"
  let ?hi = "min (?lo + 1) (?n - 1)"
  from assms(1) have n: "0 < ?n" by simp
  have "?h \<le> real (?n - 1)"
    using assms(2,3) by (simp add: mult_left_le_one_le)
  then have "\<lfloor>?h\<rfloor> \<le> int (?n - 1)"
    by (simp add: floor_le_iff)
  then have "?lo < ?n" using n by linarith
  then have lo: "?lo < length (sort ts)" by (simp only: length_sort)
  have "?hi \<le> ?n - 1" by simp
  then have "?hi < ?n" using n by linarith
  then have hi: "?hi < length (sort ts)" by (simp only: length_sort)
  have a: "map Fin (sort ts) ! ?lo = Fin (sort ts ! ?lo)"
    using lo by (rule nth_map)
  have b: "map Fin (sort ts) ! ?hi = Fin (sort ts ! ?hi)"
    using hi by (rule nth_map)
  show ?thesis
    using assms a b
    by (simp add: quantile_def interpolated_quantile_def Let_def sort_key_Fin float_sub_def)
qed

text \<open>
  Claim C2, as the code has it. Take a year with at least one stored chip time. The
  analysis layer computes the median and the 25th and 75th percentile of finite chip
  times by linear interpolation between order statistics, as the specification words
  it. The storage layer does not interpolate: for a percentile \<open>p \<ge> 0\<close> it returns
  one of the stored values, the entry of the sorted chip times at the index
  \<open>min \<lfloor>n p / 100\<rfloor> (n - 1)\<close>. When all chip times of the year are one finite value,
  the two layers agree: both give that value for the 25th, 50th and 75th percentile.
  (In general they differ: see the counterexample.)
\<close>

theorem percentiles_storage_and_analysis:
  assumes "year_chip_times d y \<noteq> []"
  shows "(0 \<le> p \<longrightarrow>
            get_percentiles_by_year d y [p] =
              Inr [(''p'' @ show_int p,
                    sort_key float_key (year_chip_times d y)
                      ! min (nat (int (length (year_chip_times d y)) * p div 100))
                            (length (year_chip_times d y) - 1))])
       \<and> (year_chip_times d y = map Fin ts \<longrightarrow>
            year_statistics d y =
              Inr \<lparr> stat_year = y, stat_count = length ts,
                    median = Fin (interpolated_quantile 0.5 ts),
                    p25 = Fin (interpolated_quantile 0.25 ts),
                    p75 = Fin (interpolated_quantile 0.75 ts) \<rparr>)
       \<and> ((\<forall>v\<in>set (year_chip_times d y). v = Fin c) \<longrightarrow>
            get_percentiles_by_year d y [25, 50, 75] =
              Inr [(''p25'', Fin c), (''p50'', Fin c), (''p75'', Fin c)]
            \<and> year_statistics d y =
              Inr \<lparr> stat_year = y, stat_count = length (year_chip_times d y),
                    median = Fin c, p25 = Fin c, p75 = Fin c \<rparr>)"
proof -
  let ?vs = "year_chip_times d y"
  let ?s = "sort_key float_key ?vs"
  from assms have s_ne: "?s \<noteq> []" by (metis length_sort length_0_conv)
  have single: "get_percentiles_by_year d y [p] =
              Inr [(''p'' @ show_int p,
                    ?s ! min (nat (int (length ?vs) * p div 100)) (length ?vs - 1))]"
    if "0 \<le> p"
    using percentile_loop_single [OF s_ne that, of "[]"] s_ne
    by (simp add: get_percentiles_by_year_def Let_def)
  have finite: "year_statistics d y =
              Inr \<lparr> stat_year = y, stat_count = length ts,
                    median = Fin (interpolated_quantile 0.5 ts),
                    p25 = Fin (interpolated_quantile 0.25 ts),
                    p75 = Fin (interpolated_quantile 0.75 ts) \<rparr>"
    if eq: "?vs = map Fin ts"
  proof -
    from assms eq have ne: "ts \<noteq> []" by auto
    have "quantile 0.5 (map Fin ts) = Inr (Fin (interpolated_quantile 0.5 ts))"
      "quantile 0.25 (map Fin ts) = Inr (Fin (interpolated_quantile 0.25 ts))"
      "quantile 0.75 (map Fin ts) = Inr (Fin (interpolated_quantile 0.75 ts))"
      using quantile_finite [OF ne] by simp_all
    then show ?thesis
      by (simp add: year_statistics_def Let_def eq)
  qed
  have same: "get_percentiles_by_year d y [25, 50, 75] =
              Inr [(''p25'', Fin c), (''p50'', Fin c), (''p75'', Fin c)]
            \<and> year_statistics d y =
              Inr \<lparr> stat_year = y, stat_count = length ?vs,
                    median = Fin c, p25 = Fin c, p75 = Fin c \<rparr>"
    if all: "\<forall>v\<in>set ?vs. v = Fin c"
  proof -
    have idx: "\<And>i. i < length ?vs \<Longrightarrow> ?s ! i = Fin c"
      by (rule sort_key_all_same [OF all])
    have n: "0 < length ?vs" using assms by simp
    have step: "\<And>p ps result. 0 \<le> p \<Longrightarrow>
        percentile_loop ?s (p # ps) result
          = percentile_loop ?s ps (AList.update (''p'' @ show_int p) (Fin c) result)"
    proof -
      fix p :: int and ps result
      assume p: "0 \<le> p"
      let ?n = "int (length ?s)"
      have q: "int_of_quotient (?n * p) 100 = ?n * p div 100"
        using p by (simp add: int_of_quotient_def)
      have idx0: "0 \<le> ?n * p div 100"
        using p by (simp add: pos_imp_zdiv_nonneg_iff)
      show "percentile_loop ?s (p # ps) result
          = percentile_loop ?s ps (AList.update (''p'' @ show_int p) (Fin c) result)"
      proof (cases "?n * p div 100 \<ge> ?n")
        case True
        have "?s ! (length ?vs - 1) = Fin c" using idx [of "length ?vs - 1"] n by simp
        moreover have "nat (int (length ?vs) - 1) = length ?vs - 1" by simp
        ultimately show ?thesis
          using True n q by (simp add: py_index_def Let_def)
      next
        case False
        then have "nat (?n * p div 100) < length ?vs" using idx0 by simp
        then have "?s ! nat (?n * p div 100) = Fin c" by (rule idx)
        then show ?thesis
          using False idx0 q by (simp add: py_index_def Let_def)
      qed
    qed
    have "get_percentiles_by_year d y [25, 50, 75] =
              Inr [(''p25'', Fin c), (''p50'', Fin c), (''p75'', Fin c)]"
      using s_ne
      by (simp add: get_percentiles_by_year_def Let_def step percentile_names
               del: percentile_loop.simps(2))
    moreover have "quantile 0.5 ?vs = Inr (Fin c)" "quantile 0.25 ?vs = Inr (Fin c)"
      "quantile 0.75 ?vs = Inr (Fin c)"
      using quantile_all_same [OF assms all] by simp_all
    ultimately show ?thesis
      by (simp add: year_statistics_def Let_def)
  qed
  show ?thesis using single finite same by blast
qed

theorem percentiles_storage_and_analysis_witness:
  "year_chip_times (results_db [2700, 2700]) 2024 = map Fin [2700, 2700]
   \<and> list_all (\<lambda>v. v = Fin 2700) (year_chip_times (results_db [2700, 2700]) 2024)
   \<and> get_percentiles_by_year (results_db [2700, 2700]) 2024 [50] = Inr [(''p50'', Fin 2700)]
   \<and> get_percentiles_by_year (results_db [2700, 2700]) 2024 [25, 50, 75] =
       Inr [(''p25'', Fin 2700), (''p50'', Fin 2700), (''p75'', Fin 2700)]
   \<and> year_statistics (results_db [2700, 2700]) 2024 =
       Inr \<lparr> stat_year = 2024, stat_count = 2, median = Fin 2700, p25 = Fin 2700,
             p75 = Fin 2700 \<rparr>
   \<and> year_statistics (results_db [2700, 2700]) 2024 =
       Inr \<lparr> stat_year = 2024, stat_count = 2,
             median = Fin (interpolated_quantile 0.5 [2700, 2700]),
             p25 = Fin (interpolated_quantile 0.25 [2700, 2700]),
             p75 = Fin (interpolated_quantile 0.75 [2700, 2700]) \<rparr>"
proof -
  let ?d = "results_db [2700, 2700]"
  have vs: "year_chip_times ?d 2024 = [Fin 2700, Fin 2700]"
    by code_simp
  then have ne: "year_chip_times ?d 2024 \<noteq> []" by simp
  have fin: "year_chip_times ?d 2024 = map Fin [2700, 2700]"
    unfolding vs by simp
  have all: "\<forall>v\<in>set (year_chip_times ?d 2024). v = Fin 2700"
    unfolding vs by simp
  have pos: "(0::int) \<le> 50" by simp
  have srt: "sort_key float_key [Fin 2700, Fin 2700] ! min (nat (int 2 * 50 div 100)) (2 - 1)
               = Fin 2700"
    by code_simp
  note T = percentiles_storage_and_analysis [OF ne, of 50 "[2700, 2700]" 2700]
  from T pos have "get_percentiles_by_year ?d 2024 [50] =
              Inr [(''p'' @ show_int 50,
                    sort_key float_key (year_chip_times ?d 2024)
                      ! min (nat (int (length (year_chip_times ?d 2024)) * 50 div 100))
                            (length (year_chip_times ?d 2024) - 1))]"
    by blast
  then have a: "get_percentiles_by_year ?d 2024 [50] = Inr [(''p50'', Fin 2700)]"
    unfolding vs using srt by (simp add: percentile_names)
  from T all have b: "get_percentiles_by_year ?d 2024 [25, 50, 75] =
              Inr [(''p25'', Fin 2700), (''p50'', Fin 2700), (''p75'', Fin 2700)]
            \<and> year_statistics ?d 2024 =
              Inr \<lparr> stat_year = 2024, stat_count = length (year_chip_times ?d 2024),
                    median = Fin 2700, p25 = Fin 2700, p75 = Fin 2700 \<rparr>"
    by blast
  from T fin have c: "year_statistics ?d 2024 =
       Inr \<lparr> stat_year = 2024, stat_count = length [2700 :: real, 2700],
             median = Fin (interpolated_quantile 0.5 [2700, 2700]),
             p25 = Fin (interpolated_quantile 0.25 [2700, 2700]),
             p75 = Fin (interpolated_quantile 0.75 [2700, 2700]) \<rparr>"
    by blast
  have len: "length (year_chip_times ?d 2024) = 2" unfolding vs by simp
  have all': "list_all (\<lambda>v. v = Fin 2700) (year_chip_times ?d 2024)"
    using all by (simp add: list_all_iff)
  from c have c': "year_statistics ?d 2024 =
       Inr \<lparr> stat_year = 2024, stat_count = 2,
             median = Fin (interpolated_quantile 0.5 [2700, 2700]),
             p25 = Fin (interpolated_quantile 0.25 [2700, 2700]),
             p75 = Fin (interpolated_quantile 0.75 [2700, 2700]) \<rparr>"
    by simp
  show ?thesis
    using fin all' a b c' unfolding len by blast
qed

text \<open>
  The claim C2 as stated fails: for the chip times 100, 200, 300, 400 of one year the
  analysis layer interpolates (175, 250, 325) and the storage layer does not (200, 300,
  400).
\<close>

theorem percentiles_differ:
  "get_percentiles_by_year (results_db [300, 100, 400, 200]) 2024 [25, 50, 75]
     = Inr [(''p25'', Fin 200), (''p50'', Fin 300), (''p75'', Fin 400)]
   \<and> calculate_yearly_statistics (results_db [300, 100, 400, 200])
     = Inr [\<lparr> stat_year = 2024, stat_count = 4, median = Fin 250, p25 = Fin 175,
              p75 = Fin 325 \<rparr>]"
  by code_simp

section \<open>Properties of the correlation\<close>














end
